theory Spec2Isabelle
  imports Main "HOL-Library.AList"
begin

section \<open>Python values, dictionaries and errors\<close>

text \<open>
  The values that travel through the tag component: \<open>None\<close>, booleans, integers, strings
  and the rich timestamp (a \<open>datetime\<close> object). The timestamp type is a parameter
  \<open>'t\<close>: the component only passes timestamps on and calls \<open>.isoformat()\<close> on them.
\<close>

datatype 't pyval = PNone | PBool bool | PInt int | PStr string | PDatetime 't

text \<open>Python truthiness, as tested by \<open>not data[TAG_ID]\<close>.\<close>

fun truthy :: "'t pyval \<Rightarrow> bool" where
  "truthy PNone = False"
| "truthy (PBool b) = b"
| "truthy (PInt i) = (i \<noteq> 0)"
| "truthy (PStr s) = (s \<noteq> [])"
| "truthy (PDatetime t) = True"

text \<open>
  A \<open>dict\<close> with string keys is an association list in insertion order; \<open>map_of\<close> is the
  lookup, \<open>AList.update\<close> is the item assignment \<open>d[k] = v\<close> (an existing key keeps its
  position, a new key goes last).
\<close>

type_synonym 't dict = "(string \<times> 't pyval) list"

definition dict_keys :: "(string \<times> 'v) list \<Rightarrow> string list" where
  "dict_keys d = map fst d"

text \<open>\<open>k in d\<close>\<close>

definition contains :: "(string \<times> 'v) list \<Rightarrow> string \<Rightarrow> bool" where
  "contains d k = (k \<in> set (dict_keys d))"

text \<open>\<open>d.get(k)\<close>: the value, \<open>None\<close> for a missing key.\<close>

definition dict_get :: "'t dict \<Rightarrow> string \<Rightarrow> 't pyval" where
  "dict_get d k = (case map_of d k of None \<Rightarrow> PNone | Some v \<Rightarrow> v)"

text \<open>
  \<open>{**a, **b}\<close>: the keys of \<open>a\<close> in their order, each with the value of \<open>b\<close> where \<open>b\<close>
  has the key, then the keys that only \<open>b\<close> has, in the order of \<open>b\<close>.
\<close>

definition dict_merge :: "(string \<times> 'v) list \<Rightarrow> (string \<times> 'v) list \<Rightarrow> (string \<times> 'v) list" where
  "dict_merge a b =
     map (\<lambda>(k, v). (k, case map_of b k of None \<Rightarrow> v | Some w \<Rightarrow> w)) a
     @ filter (\<lambda>(k, v). \<not> contains a k) b"

text \<open>
  Every exception the component raises or lets through is a value. \<open>Invalid\<close> is
  voluptuous' \<open>MultipleInvalid\<close>, carrying the keys of the offending entries;
  \<open>StorageError\<close> is a failed write of the storage backend.
\<close>

datatype error =
    Invalid "string list"
  | KeyError string
  | TypeError string
  | AttributeError string
  | TagIDExistsError string
  | ItemNotFound string
  | HomeAssistantError string
  | StorageError

section \<open>Constants\<close>

definition LAST_SCANNED :: string where
  "LAST_SCANNED = ''last_scanned''"

text \<open>
  Modelled from the spec: the constants \<open>TAG_ID\<close>, \<open>DEVICE_ID\<close>, \<open>DOMAIN\<close> and
  \<open>EVENT_TAG_SCANNED\<close> of the component's \<open>const\<close> module and \<open>CONF_NAME\<close> of
  \<open>homeassistant.const\<close> are imported by the source, not defined in it. The payload of the
  "tag scanned" event names the keys \<open>tag_id\<close>, \<open>name\<close> and \<open>device_id\<close>; the component is
  the tag component.
\<close>

definition TAG_ID :: string where
  "TAG_ID = ''tag_id''"

definition DEVICE_ID :: string where
  "DEVICE_ID = ''device_id''"

definition CONF_NAME :: string where
  "CONF_NAME = ''name''"

definition DOMAIN :: string where
  "DOMAIN = ''tag''"

definition EVENT_TAG_SCANNED :: string where
  "EVENT_TAG_SCANNED = ''tag_scanned''"

section \<open>Schemas\<close>

text \<open>
  The helpers \<open>cv.string\<close> and \<open>cv.datetime\<close> are imported by the source, and
  \<open>.isoformat()\<close> and the storage backend are outside it: they are parameters of the
  model. A validator returns \<open>None\<close> where it raises \<open>vol.Invalid\<close>; \<open>cv_string\<close> returns
  a \<open>str\<close> and \<open>cv_datetime\<close> a \<open>datetime\<close>. \<open>store_save\<close> tells whether writing a
  mapping to the storage backend succeeds.
\<close>

record 't env =
  cv_string :: "'t pyval \<Rightarrow> string option"
  cv_datetime :: "'t pyval \<Rightarrow> 't option"
  isoformat :: "'t \<Rightarrow> string"
  store_save :: "(string \<times> 't dict) list \<Rightarrow> bool"

type_synonym 't validator = "'t pyval \<Rightarrow> 't pyval option"

type_synonym 't schema = "(string \<times> 't validator) list"

definition string_field :: "'t env \<Rightarrow> 't validator" where
  "string_field E v = map_option PStr (cv_string E v)"

definition datetime_field :: "'t env \<Rightarrow> 't validator" where
  "datetime_field E v = map_option PDatetime (cv_datetime E v)"

text \<open>\<open>vol.All(str, vol.Length(min=1))\<close>: an instance of \<open>str\<close> of length at least 1.\<close>

definition name_field :: "'t validator" where
  "name_field v = (case v of PStr s \<Rightarrow> if 1 \<le> length s then Some (PStr s) else None | _ \<Rightarrow> None)"

definition CREATE_FIELDS :: "'t env \<Rightarrow> 't schema" where
  "CREATE_FIELDS E =
     [(TAG_ID, string_field E),
      (CONF_NAME, name_field),
      (''description'', string_field E),
      (LAST_SCANNED, datetime_field E),
      (DEVICE_ID, string_field E)]"

definition UPDATE_FIELDS :: "'t env \<Rightarrow> 't schema" where
  "UPDATE_FIELDS E =
     [(CONF_NAME, name_field),
      (''description'', string_field E),
      (LAST_SCANNED, datetime_field E),
      (DEVICE_ID, string_field E)]"

text \<open>
  Calling \<open>vol.Schema(fields)\<close> on a dictionary. Every key of the schema is
  \<open>vol.Optional\<close> without a default, so a missing key is accepted and stays missing; a key
  that the schema does not have is refused ("extra keys not allowed"); the value of a known
  key goes through the key's validator. With no refused entry the result has the keys of
  the input, in its order, each with its validated value.
\<close>

definition validate_entry :: "'t schema \<Rightarrow> string \<times> 't pyval \<Rightarrow> (string \<times> 't pyval) option" where
  "validate_entry S e =
     (case map_of S (fst e) of
        None \<Rightarrow> None
      | Some f \<Rightarrow> (case f (snd e) of None \<Rightarrow> None | Some v \<Rightarrow> Some (fst e, v)))"

definition vol_Schema :: "'t schema \<Rightarrow> 't dict \<Rightarrow> error + 't dict" where
  "vol_Schema S d =
     (if list_all (\<lambda>e. validate_entry S e \<noteq> None) d
      then Inr (List.map_filter (validate_entry S) d)
      else Inl (Invalid (dict_keys (filter (\<lambda>e. validate_entry S e = None) d))))"

section \<open>The identifier manager\<close>

text \<open>
  Modelled from the spec: the base class \<open>collection.IDManager\<close> with its \<open>has_id\<close> is
  imported by the source. The identifier registry is the set of ids currently in the
  collection, and \<open>has_id\<close> is a pure lookup in it.
\<close>

record id_manager =
  registry :: "string list"

definition has_id :: "id_manager \<Rightarrow> string \<Rightarrow> bool" where
  "has_id m item_id = (item_id \<in> set (registry m))"

definition generate_id :: "id_manager \<Rightarrow> string \<Rightarrow> error + string" where
  "generate_id m suggestion =
     (if has_id m suggestion then Inl (TagIDExistsError suggestion) else Inr suggestion)"

section \<open>The tag storage collection\<close>

text \<open>
  \<open>_process_create_data\<close>. \<open>uuid4\<close> is the string that \<open>str(uuid.uuid4())\<close> gives when it
  is called. \<open>data[TAG_ID]\<close> raises \<open>KeyError\<close> on a dictionary without the key, and
  \<open>.isoformat()\<close> raises \<open>AttributeError\<close> on a value that is not a timestamp.
\<close>

definition process_create_data :: "'t env \<Rightarrow> string \<Rightarrow> 't dict \<Rightarrow> error + 't dict" where
  "process_create_data E uuid4 data0 =
     (case vol_Schema (CREATE_FIELDS E) data0 of
        Inl e \<Rightarrow> Inl e
      | Inr data1 \<Rightarrow>
          (case map_of data1 TAG_ID of
             None \<Rightarrow> Inl (KeyError TAG_ID)
           | Some tag_id \<Rightarrow>
               (let data2 = (if \<not> truthy tag_id
                             then AList.update TAG_ID (PStr uuid4) data1 else data1)
                in if contains data2 LAST_SCANNED
                   then (case map_of data2 LAST_SCANNED of
                           Some (PDatetime t) \<Rightarrow>
                             Inr (AList.update LAST_SCANNED (PStr (isoformat E t)) data2)
                         | Some _ \<Rightarrow> Inl (AttributeError ''isoformat'')
                         | None \<Rightarrow> Inl (KeyError LAST_SCANNED))
                   else Inr data2)))"

text \<open>
  \<open>_get_suggested_id\<close>: \<open>info[TAG_ID]\<close>. \<open>info\<close> is a \<open>dict[str, str]\<close>; a value that is not
  a string is outside that type.
\<close>

definition get_suggested_id :: "'t dict \<Rightarrow> error + string" where
  "get_suggested_id info =
     (case map_of info TAG_ID of
        None \<Rightarrow> Inl (KeyError TAG_ID)
      | Some (PStr s) \<Rightarrow> Inr s
      | Some _ \<Rightarrow> Inl (TypeError TAG_ID))"

text \<open>\<open>_update_data\<close>\<close>

definition update_data :: "'t env \<Rightarrow> 't dict \<Rightarrow> 't dict \<Rightarrow> error + 't dict" where
  "update_data E item update_data0 =
     (case vol_Schema (UPDATE_FIELDS E) update_data0 of
        Inl e \<Rightarrow> Inl e
      | Inr validated \<Rightarrow>
          (let data1 = dict_merge item validated
           in if contains update_data0 LAST_SCANNED
              then (case map_of data1 LAST_SCANNED of
                      Some (PDatetime t) \<Rightarrow>
                        Inr (AList.update LAST_SCANNED (PStr (isoformat E t)) data1)
                    | Some _ \<Rightarrow> Inl (AttributeError ''isoformat'')
                    | None \<Rightarrow> Inl (KeyError LAST_SCANNED))
              else Inr data1))"

section \<open>The persisted collection\<close>

text \<open>
  The collection object: the in-memory mapping from id to record (\<open>data\<close>), the mapping
  last written to the storage backend (\<open>stored\<close>) and the change events delivered to the
  subscribers so far (\<open>notified\<close>).
\<close>

datatype 't change =
    Added string "'t dict"
  | Updated string "'t dict" "'t dict"
  | Removed string "'t dict"

record 't collection =
  data :: "(string \<times> 't dict) list"
  stored :: "(string \<times> 't dict) list"
  notified :: "'t change list"

text \<open>
  Modelled from the spec: \<open>async_create_item\<close> of the base class
  \<open>collection.DictStorageCollection\<close>, which the source imports. \<open>create(input)\<close>
  validates and normalises the input (\<open>_process_create_data\<close>), asks the identifier manager
  for the id (\<open>generate_id\<close> of \<open>_get_suggested_id\<close>, a duplicate is refused), inserts the
  record into the map, persists, emits an \<open>added\<close> change event and returns the stored
  record. A failure leaves the collection as it was.
\<close>

definition async_create_item ::
  "'t env \<Rightarrow> string \<Rightarrow> 't collection \<Rightarrow> 't dict \<Rightarrow> (error + 't dict) \<times> 't collection" where
  "async_create_item E uuid4 c input =
     (case process_create_data E uuid4 input of
        Inl e \<Rightarrow> (Inl e, c)
      | Inr validated \<Rightarrow>
          (case get_suggested_id validated of
             Inl e \<Rightarrow> (Inl e, c)
           | Inr suggestion \<Rightarrow>
               (case generate_id \<lparr>registry = dict_keys (data c)\<rparr> suggestion of
                  Inl e \<Rightarrow> (Inl e, c)
                | Inr item_id \<Rightarrow>
                    (let data' = AList.update item_id validated (data c)
                     in if store_save E data'
                        then (Inr validated,
                              c\<lparr>data := data', stored := data',
                                notified := notified c @ [Added item_id validated]\<rparr>)
                        else (Inl StorageError, c)))))"

text \<open>
  Modelled from the spec: \<open>async_update_item\<close> of the same base class. \<open>update(id, patch)\<close>
  fails with \<open>NotFoundError\<close> if the id is absent, validates and merges the patch
  (\<open>_update_data\<close>), persists, emits an \<open>updated\<close> change event with the old and the new
  record and returns the updated record. A failure leaves the collection as it was.
\<close>

definition async_update_item ::
  "'t env \<Rightarrow> 't collection \<Rightarrow> string \<Rightarrow> 't dict \<Rightarrow> (error + 't dict) \<times> 't collection" where
  "async_update_item E c item_id updates =
     (case map_of (data c) item_id of
        None \<Rightarrow> (Inl (ItemNotFound item_id), c)
      | Some current \<Rightarrow>
          (case update_data E current updates of
             Inl e \<Rightarrow> (Inl e, c)
           | Inr updated \<Rightarrow>
               (let data' = AList.update item_id updated (data c)
                in if store_save E data'
                   then (Inr updated,
                         c\<lparr>data := data', stored := data',
                           notified := notified c @ [Updated item_id current updated]\<rparr>)
                   else (Inl StorageError, c))))"

text \<open>
  The two methods that the scan handler calls on the collection. The handler is written
  against any pair of them; \<open>tag_storage_collection\<close> is the pair above.
\<close>

record 't collection_api =
  update_item :: "'t collection \<Rightarrow> string \<Rightarrow> 't dict \<Rightarrow> (error + 't dict) \<times> 't collection"
  create_item :: "'t collection \<Rightarrow> 't dict \<Rightarrow> (error + 't dict) \<times> 't collection"

definition tag_storage_collection :: "'t env \<Rightarrow> string \<Rightarrow> 't collection_api" where
  "tag_storage_collection E uuid4 =
     \<lparr>update_item = async_update_item E, create_item = async_create_item E uuid4\<rparr>"

section \<open>The scan handler\<close>

text \<open>
  The part of \<open>hass\<close> that the handler touches: \<open>hass.config.components\<close>, the entry
  \<open>hass.data[TAG_DATA]\<close> (absent before \<open>async_setup\<close> has stored the collection) and, in
  the order in which they happen, the events fired on the bus and the calls made on the
  collection.
\<close>

record 't event =
  event_type :: string
  event_data :: "'t dict"
  event_context :: "string option"

datatype 't effect =
    EventFired "'t event"
  | UpdateItemCalled string "'t dict"
  | CreateItemCalled "'t dict"

record 't hass =
  components :: "string list"
  tag_data :: "'t collection option"
  trace :: "'t effect list"

text \<open>\<open>hass.bus.async_fire(event_type, event_data, context=context)\<close>\<close>

definition async_fire :: "'t hass \<Rightarrow> string \<Rightarrow> 't dict \<Rightarrow> string option \<Rightarrow> 't hass" where
  "async_fire hass ty payload ctx =
     hass\<lparr>trace := trace hass
        @ [EventFired \<lparr>event_type = ty, event_data = payload, event_context = ctx\<rparr>]\<rparr>"

text \<open>A \<open>str | None\<close> argument as a value.\<close>

definition opt_str :: "string option \<Rightarrow> 't pyval" where
  "opt_str x = (case x of None \<Rightarrow> PNone | Some s \<Rightarrow> PStr s)"

text \<open>
  \<open>async_scan_tag\<close>. \<open>now\<close> is the value of \<open>dt_util.utcnow()\<close> at the call. The result is
  the exception, if one is raised, and the state that the call leaves behind.
\<close>

definition async_scan_tag ::
  "'t collection_api \<Rightarrow> 't \<Rightarrow> 't hass \<Rightarrow> string \<Rightarrow> string option \<Rightarrow> string option
     \<Rightarrow> (error + unit) \<times> 't hass" where
  "async_scan_tag api now hass tag_id device_id ctx =
     (if DOMAIN \<notin> set (components hass)
      then (Inl (HomeAssistantError ''tag component has not been set up.''), hass)
      else
        (case tag_data hass of
           None \<Rightarrow> (Inl (KeyError DOMAIN), hass)
         | Some storage_collection \<Rightarrow>
             (let tag_name =
                    (case map_of (data storage_collection) tag_id of
                       None \<Rightarrow> PNone
                     | Some item \<Rightarrow> if item \<noteq> [] then dict_get item CONF_NAME else PNone);
                  hass1 = async_fire hass EVENT_TAG_SCANNED
                            [(TAG_ID, PStr tag_id), (CONF_NAME, tag_name),
                             (DEVICE_ID, opt_str device_id)] ctx
              in if contains (data storage_collection) tag_id
                 then
                   (let updates = [(LAST_SCANNED, PDatetime now), (DEVICE_ID, opt_str device_id)];
                        hass2 = hass1\<lparr>trace := trace hass1 @ [UpdateItemCalled tag_id updates]\<rparr>;
                        res = update_item api storage_collection tag_id updates
                    in (case fst res of Inl e \<Rightarrow> Inl e | Inr item \<Rightarrow> Inr (),
                        hass2\<lparr>tag_data := Some (snd res)\<rparr>))
                 else
                   (let input = [(TAG_ID, PStr tag_id), (LAST_SCANNED, PDatetime now),
                                 (DEVICE_ID, opt_str device_id)];
                        hass2 = hass1\<lparr>trace := trace hass1 @ [CreateItemCalled input]\<rparr>;
                        res = create_item api storage_collection input
                    in (case fst res of Inl e \<Rightarrow> Inl e | Inr item \<Rightarrow> Inr (),
                        hass2\<lparr>tag_data := Some (snd res)\<rparr>)))))"

section \<open>A concrete environment\<close>

text \<open>
  A timestamp in UTC, as \<open>dt_util.utcnow()\<close> returns it, and its \<open>isoformat()\<close>:
  \<open>YYYY-MM-DDTHH:MM:SS+00:00\<close>, with \<open>.ffffff\<close> after the seconds when the microsecond is
  not 0.
\<close>

record datetime =
  year :: nat
  month :: nat
  day :: nat
  hour :: nat
  minute :: nat
  second :: nat
  microsecond :: nat

definition digit :: "nat \<Rightarrow> char" where
  "digit d = ''0123456789'' ! (d mod 10)"

fun pad :: "nat \<Rightarrow> nat \<Rightarrow> string" where
  "pad 0 n = []"
| "pad (Suc k) n = pad k (n div 10) @ [digit n]"

definition isoformat_utc :: "datetime \<Rightarrow> string" where
  "isoformat_utc d =
     pad 4 (year d) @ ''-'' @ pad 2 (month d) @ ''-'' @ pad 2 (day d) @ ''T''
     @ pad 2 (hour d) @ '':'' @ pad 2 (minute d) @ '':'' @ pad 2 (second d)
     @ (if microsecond d = 0 then [] else ''.'' @ pad 6 (microsecond d))
     @ ''+00:00''"

text \<open>
  Modelled from the spec: \<open>cv.string\<close> and \<open>cv.datetime\<close> of the helper module
  \<open>config_validation\<close>, which the source imports. The string fields of a record hold
  strings and \<open>last_scanned\<close> holds a timestamp; a value of the wrong type is a validation
  error. The storage backend of this environment accepts every write.
\<close>

definition cv_string_spec :: "'t pyval \<Rightarrow> string option" where
  "cv_string_spec v = (case v of PStr s \<Rightarrow> Some s | _ \<Rightarrow> None)"

definition cv_datetime_spec :: "'t pyval \<Rightarrow> 't option" where
  "cv_datetime_spec v = (case v of PDatetime t \<Rightarrow> Some t | _ \<Rightarrow> None)"

definition spec_env :: "datetime env" where
  "spec_env =
     \<lparr>cv_string = cv_string_spec, cv_datetime = cv_datetime_spec,
      isoformat = isoformat_utc, store_save = (\<lambda>m. True)\<rparr>"

text \<open>
  An environment passes typed values when its string validator returns a string as it is
  and its timestamp validator returns a timestamp as it is.
\<close>

definition passes_typed_values :: "'t env \<Rightarrow> bool" where
  "passes_typed_values E =
     ((\<forall>s. cv_string E (PStr s) = Some s) \<and> (\<forall>t. cv_datetime E (PDatetime t) = Some t))"

section \<open>Inputs for the examples\<close>

definition scan_time :: datetime where
  "scan_time =
     \<lparr>year = 2024, month = 5, day = 17, hour = 9, minute = 30, second = 0, microsecond = 0\<rparr>"

definition example_uuid :: string where
  "example_uuid = ''123e4567-e89b-42d3-a456-426614174000''"

definition front_door :: "datetime dict" where
  "front_door =
     [(TAG_ID, PStr ''T''), (CONF_NAME, PStr ''Front Door''),
      (''description'', PStr ''NFC sticker'')]"

definition empty_collection :: "datetime collection" where
  "empty_collection = \<lparr>data = [], stored = [], notified = []\<rparr>"

definition front_door_collection :: "datetime collection" where
  "front_door_collection =
     \<lparr>data = [(''T'', front_door)], stored = [(''T'', front_door)], notified = []\<rparr>"

definition set_up :: "datetime collection \<Rightarrow> datetime hass" where
  "set_up c = \<lparr>components = [DOMAIN], tag_data = Some c, trace = []\<rparr>"

definition not_set_up :: "datetime hass" where
  "not_set_up = \<lparr>components = [], tag_data = None, trace = []\<rparr>"


text \<open>The concrete environment with a storage backend that refuses every write.\<close>

definition failing_store_env :: "datetime env" where
  "failing_store_env = spec_env\<lparr>store_save := (\<lambda>m. False)\<rparr>"

section \<open>Notions used in the statements\<close>

text \<open>The "tag scanned" event of a scan, with the name that the handler found.\<close>

definition scan_event :: "string \<Rightarrow> 't pyval \<Rightarrow> string option \<Rightarrow> string option \<Rightarrow> 't event" where
  "scan_event tag_id tag_name device_id ctx =
     \<lparr>event_type = EVENT_TAG_SCANNED,
      event_data = [(TAG_ID, PStr tag_id), (CONF_NAME, tag_name), (DEVICE_ID, opt_str device_id)],
      event_context = ctx\<rparr>"

text \<open>The name under which the collection knows a tag id; \<open>None\<close> for an unknown tag.\<close>

definition tag_name_of :: "'t collection \<Rightarrow> string \<Rightarrow> 't pyval" where
  "tag_name_of c tag_id =
     (case map_of (data c) tag_id of None \<Rightarrow> PNone | Some item \<Rightarrow> dict_get item CONF_NAME)"

section \<open>Dictionaries and schemas\<close>

lemmas key_defs = TAG_ID_def DEVICE_ID_def CONF_NAME_def LAST_SCANNED_def DOMAIN_def

lemmas eval_defs =
  process_create_data_def update_data_def vol_Schema_def validate_entry_def
  CREATE_FIELDS_def UPDATE_FIELDS_def string_field_def datetime_field_def name_field_def
  spec_env_def cv_string_spec_def cv_datetime_spec_def contains_def dict_keys_def
  dict_merge_def key_defs

lemma keys_distinct [simp]:
  "TAG_ID \<noteq> LAST_SCANNED" "LAST_SCANNED \<noteq> TAG_ID"
  "CONF_NAME \<noteq> LAST_SCANNED" "DEVICE_ID \<noteq> LAST_SCANNED" "''description'' \<noteq> LAST_SCANNED"
  "LAST_SCANNED \<noteq> CONF_NAME" "LAST_SCANNED \<noteq> DEVICE_ID"
  "CONF_NAME \<noteq> DEVICE_ID" "DEVICE_ID \<noteq> CONF_NAME" "''description'' \<noteq> DEVICE_ID"
  "TAG_ID \<noteq> CONF_NAME" "TAG_ID \<noteq> DEVICE_ID" "TAG_ID \<noteq> ''description''"
  by (simp_all add: key_defs)

lemma contains_iff: "contains d k \<longleftrightarrow> map_of d k \<noteq> None"
  by (simp add: contains_def dict_keys_def map_of_eq_None_iff)

lemma map_of_validated:
  "list_all (\<lambda>e. validate_entry S e \<noteq> None) d \<Longrightarrow>
   map_of (List.map_filter (validate_entry S) d) k =
     (case map_of d k of None \<Rightarrow> None
      | Some v \<Rightarrow> (case map_of S k of None \<Rightarrow> None | Some f \<Rightarrow> f v))"
proof (induction d)
  case Nil
  then show ?case by simp
next
  case (Cons e d)
  then show ?case
    by (cases e) (auto simp: validate_entry_def split: option.splits)
qed

lemma keys_validated:
  "list_all (\<lambda>e. validate_entry S e \<noteq> None) d \<Longrightarrow>
   dict_keys (List.map_filter (validate_entry S) d) = dict_keys d"
  by (induction d) (auto simp: validate_entry_def dict_keys_def split: option.splits)

lemma vol_Schema_Inr_lookup:
  "vol_Schema S d = Inr d' \<Longrightarrow>
   map_of d' k =
     (case map_of d k of None \<Rightarrow> None
      | Some v \<Rightarrow> (case map_of S k of None \<Rightarrow> None | Some f \<Rightarrow> f v))"
  by (auto simp: vol_Schema_def map_of_validated split: if_splits)

lemma vol_Schema_Inr_keys: "vol_Schema S d = Inr d' \<Longrightarrow> dict_keys d' = dict_keys d"
  by (auto simp: vol_Schema_def keys_validated split: if_splits)

lemma vol_Schema_Inr_valid:
  assumes a: "vol_Schema S d = Inr d'" and b: "map_of d k = Some v"
  shows "\<exists>f w. map_of S k = Some f \<and> f v = Some w \<and> map_of d' k = Some w"
proof -
  from b have "contains d k" by (simp add: contains_iff)
  then have "contains d' k" using vol_Schema_Inr_keys[OF a] by (simp add: contains_def)
  then obtain w where w: "map_of d' k = Some w" by (auto simp: contains_iff)
  from vol_Schema_Inr_lookup[OF a, of k] b w show ?thesis
    by (cases "map_of S k") (auto intro: sym)
qed

lemma vol_Schema_Inl: "vol_Schema S d = Inl e \<Longrightarrow> \<exists>ks. e = Invalid ks"
  by (auto simp: vol_Schema_def split: if_splits)

lemma vol_Schema_extra_key:
  assumes a: "contains d k" and b: "map_of S k = None"
  shows "\<exists>ks. vol_Schema S d = Inl (Invalid ks)"
proof -
  from a obtain v where "(k, v) \<in> set d" by (auto simp: contains_def dict_keys_def)
  moreover have "validate_entry S (k, v) = None" using b by (simp add: validate_entry_def)
  ultimately have "\<not> list_all (\<lambda>e. validate_entry S e \<noteq> None) d"
    unfolding list_all_iff by blast
  then show ?thesis by (simp add: vol_Schema_def)
qed

lemma map_of_dict_merge:
  "map_of (dict_merge a b) k = (case map_of b k of None \<Rightarrow> map_of a k | Some w \<Rightarrow> Some w)"
proof (cases "contains a k")
  case True
  have "map_of (map (\<lambda>(k, v). (k, case map_of b k of None \<Rightarrow> v | Some w \<Rightarrow> w)) a) k
        = map_option (\<lambda>v. case map_of b k of None \<Rightarrow> v | Some w \<Rightarrow> w) (map_of a k)"
    by (induction a) (auto split: option.splits)
  with True show ?thesis
    by (auto simp: dict_merge_def map_add_def contains_iff split: option.splits)
next
  case False
  have 1: "map_of (map (\<lambda>(k, v). (k, case map_of b k of None \<Rightarrow> v | Some w \<Rightarrow> w)) a) k = None"
    using False by (induction a) (auto simp: contains_def dict_keys_def)
  have 2: "map_of (filter (\<lambda>(k, v). \<not> contains a k) b) k = map_of b k"
    using False by (induction b) auto
  from False 1 2 show ?thesis
    by (auto simp: dict_merge_def map_add_def contains_iff split: option.splits)
qed

lemma update_absent: "map_of al k = None \<Longrightarrow> AList.update k v al = al @ [(k, v)]"
  by (induction al) (auto split: if_splits)

lemma UPDATE_FIELDS_lookup [simp]:
  "map_of (UPDATE_FIELDS E) LAST_SCANNED = Some (datetime_field E)"
  "map_of (UPDATE_FIELDS E) DEVICE_ID = Some (string_field E)"
  "map_of (UPDATE_FIELDS E) TAG_ID = None"
  by (simp_all add: UPDATE_FIELDS_def key_defs)

lemma CREATE_FIELDS_lookup [simp]:
  "map_of (CREATE_FIELDS E) LAST_SCANNED = Some (datetime_field E)"
  "map_of (CREATE_FIELDS E) TAG_ID = Some (string_field E)"
  by (simp_all add: CREATE_FIELDS_def key_defs)

lemma CREATE_FIELDS_cases:
  assumes "map_of (CREATE_FIELDS E) k = Some f" "k \<noteq> LAST_SCANNED"
  shows "f = string_field E \<or> f = name_field"
proof -
  from assms(1) have "(k, f) \<in> set (CREATE_FIELDS E)" by (rule map_of_SomeD)
  with assms(2) show ?thesis unfolding CREATE_FIELDS_def by auto
qed

lemma string_field_PStr: "string_field E v = Some w \<Longrightarrow> \<exists>s. w = PStr s"
  by (auto simp: string_field_def)

lemma name_field_PStr: "name_field v = Some w \<Longrightarrow> w = v \<and> (\<exists>s. w = PStr s)"
  by (cases v) (auto simp: name_field_def split: if_splits)

lemma string_valued_fields:
  assumes "map_of (CREATE_FIELDS E) k = Some f" "k \<noteq> LAST_SCANNED" "f v = Some w"
  shows "\<exists>s. w = PStr s"
  using CREATE_FIELDS_cases[OF assms(1,2)] assms(3)
  by (auto dest: string_field_PStr name_field_PStr)

lemma CREATE_FIELDS_Cons: "CREATE_FIELDS E = (TAG_ID, string_field E) # UPDATE_FIELDS E"
  by (simp add: UPDATE_FIELDS_def CREATE_FIELDS_def)

lemma UPDATE_FIELDS_sub:
  assumes "map_of (UPDATE_FIELDS E) k = Some f"
  shows "map_of (CREATE_FIELDS E) k = Some f"
proof -
  from assms have "k \<noteq> TAG_ID" by auto
  with assms show ?thesis by (simp add: CREATE_FIELDS_Cons)
qed

lemma typed_string_passes:
  assumes "passes_typed_values E" "map_of (CREATE_FIELDS E) k = Some f" "k \<noteq> LAST_SCANNED"
    "f (PStr s) = Some w"
  shows "w = PStr s"
proof -
  from CREATE_FIELDS_cases[OF assms(2,3)] show ?thesis
  proof
    assume "f = string_field E"
    with assms(1,4) show ?thesis by (auto simp: string_field_def passes_typed_values_def)
  next
    assume "f = name_field"
    with assms(4) show ?thesis by (auto dest: name_field_PStr)
  qed
qed

lemma passes_typed_values_spec_env: "passes_typed_values spec_env"
  by (simp add: passes_typed_values_def spec_env_def cv_string_spec_def cv_datetime_spec_def)

lemma store_save_spec_env: "store_save spec_env m"
  by (simp add: spec_env_def)

section \<open>What \<open>_update_data\<close> returns\<close>

lemma update_data_Inr:
  assumes "update_data E item patch = Inr r"
  shows "\<exists>p. vol_Schema (UPDATE_FIELDS E) patch = Inr p
    \<and> (\<not> contains patch LAST_SCANNED \<longrightarrow> r = dict_merge item p)
    \<and> (contains patch LAST_SCANNED \<longrightarrow>
           (\<exists>t. map_of (dict_merge item p) LAST_SCANNED = Some (PDatetime t)
              \<and> r = AList.update LAST_SCANNED (PStr (isoformat E t)) (dict_merge item p)))"
  using assms
  by (auto simp: update_data_def Let_def split: sum.splits if_splits option.splits pyval.splits)

lemma update_data_merged:
  assumes "update_data E item patch = Inr r" "k \<noteq> LAST_SCANNED"
  shows "\<exists>p. vol_Schema (UPDATE_FIELDS E) patch = Inr p \<and> map_of r k = map_of (dict_merge item p) k"
  using update_data_Inr[OF assms(1)] assms(2)
  by (cases "contains patch LAST_SCANNED") (auto simp: update_conv')

lemma update_data_unnamed:
  assumes "update_data E item patch = Inr r" "map_of patch k = None"
  shows "map_of r k = map_of item k"
proof -
  from update_data_Inr[OF assms(1)] obtain p where p: "vol_Schema (UPDATE_FIELDS E) patch = Inr p"
    and a: "\<not> contains patch LAST_SCANNED \<longrightarrow> r = dict_merge item p"
    and b: "contains patch LAST_SCANNED \<longrightarrow>
           (\<exists>t. r = AList.update LAST_SCANNED (PStr (isoformat E t)) (dict_merge item p))"
    by blast
  from vol_Schema_Inr_lookup[OF p, of k] assms(2) have pk: "map_of p k = None" by simp
  show ?thesis
  proof (cases "contains patch LAST_SCANNED")
    case True
    with assms(2) have "k \<noteq> LAST_SCANNED" by (auto simp: contains_iff)
    with True b pk show ?thesis by (auto simp: update_conv' map_of_dict_merge)
  next
    case False
    with a pk show ?thesis by (simp add: map_of_dict_merge)
  qed
qed

lemma update_data_named:
  assumes "update_data E item patch = Inr r" "map_of patch k = Some v" "k \<noteq> LAST_SCANNED"
  shows "\<exists>f w. map_of (UPDATE_FIELDS E) k = Some f \<and> f v = Some w \<and> map_of r k = Some w"
proof -
  from update_data_merged[OF assms(1,3)] obtain p where
    p: "vol_Schema (UPDATE_FIELDS E) patch = Inr p" and r: "map_of r k = map_of (dict_merge item p) k"
    by blast
  from vol_Schema_Inr_valid[OF p assms(2)] obtain f w where
    "map_of (UPDATE_FIELDS E) k = Some f" "f v = Some w" "map_of p k = Some w" by blast
  then show ?thesis using r by (simp add: map_of_dict_merge)
qed

lemma update_data_last_scanned:
  assumes "update_data E item patch = Inr r" "map_of patch LAST_SCANNED = Some v"
  shows "\<exists>t. cv_datetime E v = Some t \<and> map_of r LAST_SCANNED = Some (PStr (isoformat E t))"
proof -
  from assms(2) have c: "contains patch LAST_SCANNED" by (simp add: contains_iff)
  from update_data_Inr[OF assms(1)] c obtain p t where
    p: "vol_Schema (UPDATE_FIELDS E) patch = Inr p"
    and t: "map_of (dict_merge item p) LAST_SCANNED = Some (PDatetime t)"
      "r = AList.update LAST_SCANNED (PStr (isoformat E t)) (dict_merge item p)"
    by blast
  from vol_Schema_Inr_valid[OF p assms(2)] obtain w where
    w: "datetime_field E v = Some w" "map_of p LAST_SCANNED = Some w" by auto
  from t(1) w(2) have "w = PDatetime t" by (simp add: map_of_dict_merge)
  with w(1) have "cv_datetime E v = Some t" by (auto simp: datetime_field_def)
  with t(2) show ?thesis by (simp add: update_conv')
qed

lemma update_data_total:
  assumes "vol_Schema (UPDATE_FIELDS E) patch = Inr p"
  shows "\<exists>r. update_data E item patch = Inr r"
proof (cases "map_of patch LAST_SCANNED")
  case None
  then show ?thesis using assms by (simp add: update_data_def contains_iff)
next
  case (Some v)
  from vol_Schema_Inr_valid[OF assms Some] obtain w where
    w: "datetime_field E v = Some w" "map_of p LAST_SCANNED = Some w" by auto
  then obtain t where "w = PDatetime t" by (auto simp: datetime_field_def)
  with w(2) have "map_of (dict_merge item p) LAST_SCANNED = Some (PDatetime t)"
    by (simp add: map_of_dict_merge)
  then show ?thesis using assms Some by (simp add: update_data_def contains_iff)
qed

lemma update_data_Inl:
  assumes "update_data E item patch = Inl e"
  shows "\<exists>ks. e = Invalid ks"
proof (cases "vol_Schema (UPDATE_FIELDS E) patch")
  case (Inl e')
  with assms have "e = e'" by (simp add: update_data_def)
  with vol_Schema_Inl[OF Inl] show ?thesis by simp
next
  case (Inr p)
  from update_data_total[OF Inr, of item] assms show ?thesis by auto
qed

lemma update_data_extra_key:
  assumes "contains patch k" "map_of (UPDATE_FIELDS E) k = None"
  shows "\<exists>ks. update_data E item patch = Inl (Invalid ks)"
proof -
  from vol_Schema_extra_key[OF assms] obtain ks where
    "vol_Schema (UPDATE_FIELDS E) patch = Inl (Invalid ks)" by blast
  then show ?thesis by (simp add: update_data_def)
qed


section \<open>What \<open>_process_create_data\<close> returns\<close>

lemma process_create_data_Inr:
  assumes "process_create_data E uuid4 d = Inr r"
  shows "\<exists>d1 tid d2. vol_Schema (CREATE_FIELDS E) d = Inr d1
    \<and> map_of d1 TAG_ID = Some tid
    \<and> d2 = (if \<not> truthy tid then AList.update TAG_ID (PStr uuid4) d1 else d1)
    \<and> (\<not> contains d2 LAST_SCANNED \<longrightarrow> r = d2)
    \<and> (contains d2 LAST_SCANNED \<longrightarrow>
           (\<exists>t. map_of d2 LAST_SCANNED = Some (PDatetime t)
              \<and> r = AList.update LAST_SCANNED (PStr (isoformat E t)) d2))"
proof -
  from assms obtain d1 where d1: "vol_Schema (CREATE_FIELDS E) d = Inr d1"
    by (auto simp: process_create_data_def split: sum.splits)
  with assms obtain tid where tid: "map_of d1 TAG_ID = Some tid"
    by (auto simp: process_create_data_def split: option.splits)
  define d2 where "d2 = (if \<not> truthy tid then AList.update TAG_ID (PStr uuid4) d1 else d1)"
  have a: "\<not> contains d2 LAST_SCANNED \<longrightarrow> r = d2"
    using assms d1 tid by (auto simp: process_create_data_def d2_def Let_def split: if_splits)
  have b: "contains d2 LAST_SCANNED \<longrightarrow>
           (\<exists>t. map_of d2 LAST_SCANNED = Some (PDatetime t)
              \<and> r = AList.update LAST_SCANNED (PStr (isoformat E t)) d2)"
    using assms d1 tid
    by (auto simp: process_create_data_def d2_def Let_def split: option.splits pyval.splits if_splits)
  from d1 tid d2_def a b show ?thesis by blast
qed

lemma process_create_data_id:
  assumes "process_create_data E uuid4 d = Inr r"
  shows "\<exists>v s. map_of d TAG_ID = Some v \<and> cv_string E v = Some s
           \<and> map_of r TAG_ID = Some (PStr (if s = [] then uuid4 else s))"
proof -
  from process_create_data_Inr[OF assms] obtain d1 tid d2 where
    d1: "vol_Schema (CREATE_FIELDS E) d = Inr d1"
    and tid: "map_of d1 TAG_ID = Some tid"
    and d2: "d2 = (if \<not> truthy tid then AList.update TAG_ID (PStr uuid4) d1 else d1)"
    and a: "\<not> contains d2 LAST_SCANNED \<longrightarrow> r = d2"
    and b: "contains d2 LAST_SCANNED \<longrightarrow>
           (\<exists>t. map_of d2 LAST_SCANNED = Some (PDatetime t)
              \<and> r = AList.update LAST_SCANNED (PStr (isoformat E t)) d2)"
    by blast
  have r: "map_of r TAG_ID = map_of d2 TAG_ID"
    using a b by (cases "contains d2 LAST_SCANNED") (auto simp: update_conv')
  from vol_Schema_Inr_lookup[OF d1, of TAG_ID] tid obtain v where
    v: "map_of d TAG_ID = Some v" "string_field E v = Some tid"
    by (auto split: option.splits)
  then obtain s where s: "cv_string E v = Some s" "tid = PStr s"
    by (auto simp: string_field_def)
  show ?thesis using r d2 tid v s by (auto simp: update_conv')
qed

lemma process_create_data_other:
  assumes "process_create_data E uuid4 d = Inr r" "k \<noteq> TAG_ID" "k \<noteq> LAST_SCANNED"
  shows "map_of r k =
     (case map_of d k of None \<Rightarrow> None
      | Some v \<Rightarrow> (case map_of (CREATE_FIELDS E) k of None \<Rightarrow> None | Some f \<Rightarrow> f v))"
proof -
  from process_create_data_Inr[OF assms(1)] obtain d1 tid d2 where
    d1: "vol_Schema (CREATE_FIELDS E) d = Inr d1"
    and tid: "map_of d1 TAG_ID = Some tid"
    and d2: "d2 = (if \<not> truthy tid then AList.update TAG_ID (PStr uuid4) d1 else d1)"
    and a: "\<not> contains d2 LAST_SCANNED \<longrightarrow> r = d2"
    and b: "contains d2 LAST_SCANNED \<longrightarrow>
           (\<exists>t. map_of d2 LAST_SCANNED = Some (PDatetime t)
              \<and> r = AList.update LAST_SCANNED (PStr (isoformat E t)) d2)"
    by blast
  have 1: "map_of r k = map_of d2 k"
  proof (cases "contains d2 LAST_SCANNED")
    case True
    with b obtain t where "r = AList.update LAST_SCANNED (PStr (isoformat E t)) d2" by blast
    then show ?thesis using assms(3) by (simp add: update_conv')
  next
    case False
    with a show ?thesis by simp
  qed
  have 2: "map_of d2 k = map_of d1 k" using assms(2) by (simp add: d2 update_conv')
  from 1 2 vol_Schema_Inr_lookup[OF d1, of k] show ?thesis by simp
qed

lemma process_create_data_last_scanned:
  assumes "process_create_data E uuid4 d = Inr r"
  shows "map_of r LAST_SCANNED =
     (case map_of d LAST_SCANNED of None \<Rightarrow> None
      | Some v \<Rightarrow> map_option (\<lambda>t. PStr (isoformat E t)) (cv_datetime E v))"
    and "map_of d LAST_SCANNED = Some v \<Longrightarrow> cv_datetime E v \<noteq> None"
proof -
  from process_create_data_Inr[OF assms(1)] obtain d1 tid d2 where
    d1: "vol_Schema (CREATE_FIELDS E) d = Inr d1"
    and tid: "map_of d1 TAG_ID = Some tid"
    and d2: "d2 = (if \<not> truthy tid then AList.update TAG_ID (PStr uuid4) d1 else d1)"
    and a: "\<not> contains d2 LAST_SCANNED \<longrightarrow> r = d2"
    and b: "contains d2 LAST_SCANNED \<longrightarrow>
           (\<exists>t. map_of d2 LAST_SCANNED = Some (PDatetime t)
              \<and> r = AList.update LAST_SCANNED (PStr (isoformat E t)) d2)"
    by blast
  have e: "map_of d2 LAST_SCANNED = map_of d1 LAST_SCANNED"
    using d2 by (auto simp: update_conv')
  have l: "map_of d1 LAST_SCANNED =
     (case map_of d LAST_SCANNED of None \<Rightarrow> None | Some v \<Rightarrow> datetime_field E v)"
    using vol_Schema_Inr_lookup[OF d1, of LAST_SCANNED]
    by (cases "map_of d LAST_SCANNED") simp_all
  show "map_of r LAST_SCANNED =
     (case map_of d LAST_SCANNED of None \<Rightarrow> None
      | Some v \<Rightarrow> map_option (\<lambda>t. PStr (isoformat E t)) (cv_datetime E v))"
  proof (cases "contains d2 LAST_SCANNED")
    case True
    with b obtain t where t: "map_of d2 LAST_SCANNED = Some (PDatetime t)"
      "r = AList.update LAST_SCANNED (PStr (isoformat E t)) d2" by blast
    from t(1) e l show ?thesis
      by (auto simp: t(2) update_conv' datetime_field_def split: option.splits)
  next
    case False
    then have "map_of d2 LAST_SCANNED = None" by (simp add: contains_iff)
    with False a e l show ?thesis
      by (auto simp: datetime_field_def split: option.splits)
  qed
  show "cv_datetime E v \<noteq> None" if "map_of d LAST_SCANNED = Some v"
    using vol_Schema_Inr_valid[OF d1 that] by (auto simp: datetime_field_def)
qed

lemma get_suggested_id_of_created:
  assumes "process_create_data E uuid4 d = Inr r"
  shows "\<exists>s. get_suggested_id r = Inr s"
  using process_create_data_id[OF assms] by (auto simp: get_suggested_id_def)

lemma process_create_data_total:
  assumes "vol_Schema (CREATE_FIELDS E) d = Inr p" "contains d TAG_ID"
  shows "\<exists>r. process_create_data E uuid4 d = Inr r"
proof -
  from assms(2) obtain v where v: "map_of d TAG_ID = Some v" by (auto simp: contains_iff)
  from vol_Schema_Inr_valid[OF assms(1) v] obtain tid where tid: "map_of p TAG_ID = Some tid"
    by blast
  define d2 where "d2 = (if \<not> truthy tid then AList.update TAG_ID (PStr uuid4) p else p)"
  have e: "map_of d2 LAST_SCANNED = map_of p LAST_SCANNED"
    by (auto simp: d2_def update_conv')
  show ?thesis
  proof (cases "map_of d LAST_SCANNED")
    case None
    then have "map_of p LAST_SCANNED = None"
      using vol_Schema_Inr_lookup[OF assms(1), of LAST_SCANNED] by simp
    with e have "\<not> contains d2 LAST_SCANNED" by (simp add: contains_iff)
    then show ?thesis using assms(1) tid
      by (auto simp: process_create_data_def d2_def Let_def)
  next
    case (Some x)
    from vol_Schema_Inr_valid[OF assms(1) Some] obtain w where
      w: "datetime_field E x = Some w" "map_of p LAST_SCANNED = Some w" by auto
    then obtain t where "w = PDatetime t" by (auto simp: datetime_field_def)
    with w(2) e have "map_of d2 LAST_SCANNED = Some (PDatetime t)" by simp
    then show ?thesis using assms(1) tid
      by (auto simp: process_create_data_def d2_def Let_def contains_iff)
  qed
qed

lemma process_create_data_needs_id:
  assumes a: "\<not> contains d TAG_ID" and b: "process_create_data E uuid4 d = Inr r"
  shows False
proof -
  from b obtain d1 where d1: "vol_Schema (CREATE_FIELDS E) d = Inr d1"
    by (auto simp: process_create_data_def split: sum.splits)
  from a have "map_of d TAG_ID = None" by (simp add: contains_iff)
  then have "map_of d1 TAG_ID = None" using vol_Schema_Inr_lookup[OF d1, of TAG_ID] by simp
  with b d1 show False by (simp add: process_create_data_def)
qed

lemma create_scanned:
  assumes "passes_typed_values E" "tag_id \<noteq> []"
  shows "process_create_data E uuid4
           [(TAG_ID, PStr tag_id), (LAST_SCANNED, PDatetime now), (DEVICE_ID, PStr dev)]
         = Inr [(TAG_ID, PStr tag_id), (LAST_SCANNED, PStr (isoformat E now)),
                (DEVICE_ID, PStr dev)]"
  using assms
  by (simp add: process_create_data_def vol_Schema_def validate_entry_def CREATE_FIELDS_def
      string_field_def datetime_field_def passes_typed_values_def contains_def dict_keys_def
      key_defs)

section \<open>The collection methods\<close>




lemma async_create_item_fresh:
  assumes "process_create_data E uuid4 input = Inr rec" "map_of rec TAG_ID = Some (PStr i)"
    "map_of (data c) i = None" "store_save E (data c @ [(i, rec)])"
  shows "async_create_item E uuid4 c input =
     (Inr rec, c\<lparr>data := data c @ [(i, rec)], stored := data c @ [(i, rec)],
                notified := notified c @ [Added i rec]\<rparr>)"
proof -
  from assms(3) have "i \<notin> set (dict_keys (data c))"
    using contains_iff[of "data c" i] by (simp add: contains_def)
  then show ?thesis
    using assms
    by (simp add: async_create_item_def get_suggested_id_def generate_id_def has_id_def
        update_absent Let_def)
qed

section \<open>The two paths of the scan handler\<close>

lemma tag_name_of_known: "map_of (data c) tag_id = Some item \<Longrightarrow>
  (case map_of (data c) tag_id of None \<Rightarrow> PNone
   | Some item \<Rightarrow> if item \<noteq> [] then dict_get item CONF_NAME else PNone) = dict_get item CONF_NAME"
  by (cases item) (simp_all add: dict_get_def)

lemma scan_known:
  assumes "DOMAIN \<in> set (components hass)" "tag_data hass = Some c"
    "map_of (data c) tag_id = Some item"
  shows "async_scan_tag api now hass tag_id device_id ctx =
    (case fst (update_item api c tag_id
                 [(LAST_SCANNED, PDatetime now), (DEVICE_ID, opt_str device_id)]) of
       Inl e \<Rightarrow> Inl e | Inr x \<Rightarrow> Inr (),
     hass\<lparr>trace := trace hass
             @ [EventFired (scan_event tag_id (dict_get item CONF_NAME) device_id ctx),
                UpdateItemCalled tag_id
                  [(LAST_SCANNED, PDatetime now), (DEVICE_ID, opt_str device_id)]],
          tag_data := Some (snd (update_item api c tag_id
                 [(LAST_SCANNED, PDatetime now), (DEVICE_ID, opt_str device_id)]))\<rparr>)"
proof -
  from assms(3) have k: "contains (data c) tag_id" by (simp add: contains_iff)
  show ?thesis
    using assms(1,2) k tag_name_of_known[OF assms(3)]
    by (simp add: async_scan_tag_def Let_def async_fire_def scan_event_def)
qed

lemma scan_unknown:
  assumes "DOMAIN \<in> set (components hass)" "tag_data hass = Some c"
    "map_of (data c) tag_id = None"
  shows "async_scan_tag api now hass tag_id device_id ctx =
    (case fst (create_item api c
                 [(TAG_ID, PStr tag_id), (LAST_SCANNED, PDatetime now),
                  (DEVICE_ID, opt_str device_id)]) of
       Inl e \<Rightarrow> Inl e | Inr x \<Rightarrow> Inr (),
     hass\<lparr>trace := trace hass
             @ [EventFired (scan_event tag_id PNone device_id ctx),
                CreateItemCalled
                  [(TAG_ID, PStr tag_id), (LAST_SCANNED, PDatetime now),
                   (DEVICE_ID, opt_str device_id)]],
          tag_data := Some (snd (create_item api c
                 [(TAG_ID, PStr tag_id), (LAST_SCANNED, PDatetime now),
                  (DEVICE_ID, opt_str device_id)]))\<rparr>)"
proof -
  from assms(3) have k: "\<not> contains (data c) tag_id" by (simp add: contains_iff)
  show ?thesis
    using assms k
    by (simp add: async_scan_tag_def Let_def async_fire_def scan_event_def)
qed


lemma scan_unknown_stored:
  assumes "DOMAIN \<in> set (components hass)" and "tag_data hass = Some c"
    and "map_of (data c) tag_id = None"
  shows "trace (snd (async_scan_tag (tag_storage_collection E uuid4) now hass tag_id device_id ctx))
           = trace hass
             @ [EventFired (scan_event tag_id PNone device_id ctx),
                CreateItemCalled
                  [(TAG_ID, PStr tag_id), (LAST_SCANNED, PDatetime now),
                   (DEVICE_ID, opt_str device_id)]]
       \<and> (tag_id \<noteq> '''' \<and> device_id = Some dev \<and> passes_typed_values E
            \<and> rec = [(TAG_ID, PStr tag_id), (LAST_SCANNED, PStr (isoformat E now)),
                     (DEVICE_ID, PStr dev)]
            \<and> store_save E (data c @ [(tag_id, rec)])
          \<longrightarrow> async_scan_tag (tag_storage_collection E uuid4) now hass tag_id device_id ctx
              = (Inr (),
                 hass\<lparr>trace := trace hass
                         @ [EventFired (scan_event tag_id PNone device_id ctx),
                            CreateItemCalled
                              [(TAG_ID, PStr tag_id), (LAST_SCANNED, PDatetime now),
                               (DEVICE_ID, opt_str device_id)]],
                      tag_data := Some (c\<lparr>data := data c @ [(tag_id, rec)],
                                          stored := data c @ [(tag_id, rec)],
                                          notified := notified c @ [Added tag_id rec]\<rparr>)\<rparr>))"
proof (intro conjI impI)
  show "trace (snd (async_scan_tag (tag_storage_collection E uuid4) now hass tag_id device_id ctx))
           = trace hass
             @ [EventFired (scan_event tag_id PNone device_id ctx),
                CreateItemCalled
                  [(TAG_ID, PStr tag_id), (LAST_SCANNED, PDatetime now),
                   (DEVICE_ID, opt_str device_id)]]"
    by (simp add: scan_unknown[OF assms])
next
  assume h: "tag_id \<noteq> '''' \<and> device_id = Some dev \<and> passes_typed_values E
            \<and> rec = [(TAG_ID, PStr tag_id), (LAST_SCANNED, PStr (isoformat E now)),
                     (DEVICE_ID, PStr dev)]
            \<and> store_save E (data c @ [(tag_id, rec)])"
  then have p: "process_create_data E uuid4
           [(TAG_ID, PStr tag_id), (LAST_SCANNED, PDatetime now), (DEVICE_ID, PStr dev)]
         = Inr rec"
    using create_scanned[of E tag_id uuid4 now dev] by simp
  from h have l: "map_of rec TAG_ID = Some (PStr tag_id)" by simp
  from h have s: "store_save E (data c @ [(tag_id, rec)])" by blast
  from h have d: "opt_str device_id = (PStr dev :: 'a pyval)" by (simp add: opt_str_def)
  show "async_scan_tag (tag_storage_collection E uuid4) now hass tag_id device_id ctx
              = (Inr (),
                 hass\<lparr>trace := trace hass
                         @ [EventFired (scan_event tag_id PNone device_id ctx),
                            CreateItemCalled
                              [(TAG_ID, PStr tag_id), (LAST_SCANNED, PDatetime now),
                               (DEVICE_ID, opt_str device_id)]],
                      tag_data := Some (c\<lparr>data := data c @ [(tag_id, rec)],
                                          stored := data c @ [(tag_id, rec)],
                                          notified := notified c @ [Added tag_id rec]\<rparr>)\<rparr>)"
    using async_create_item_fresh[OF p l assms(3) s] d
    by (simp add: scan_unknown[OF assms] tag_storage_collection_def)
qed

section \<open>The claims\<close>

text \<open>
  C1. The claim: a valid create input that supplies no id gets a freshly generated UUID as
  its id. The code: the create schema accepts the input \<open>{"name": "Front Door"}\<close>, which has
  no id, and returns it without the key; the test \<open>not data[TAG_ID]\<close> then raises
  \<open>KeyError\<close>, whatever the validators and the UUID are. No record is returned.
\<close>

theorem C1_create_without_id_raises_KeyError:
  "process_create_data E uuid4 [(CONF_NAME, PStr ''Front Door'')] = Inl (KeyError TAG_ID)"
  by (simp add: process_create_data_def vol_Schema_def validate_entry_def CREATE_FIELDS_def
      name_field_def key_defs)

text \<open>
  C2. For every suggestion, \<open>generate_id\<close> raises \<open>TagIDExistsError\<close> with that id exactly
  when the id is in the registry, it raises nothing else, and it returns the suggestion
  unchanged when the id is absent. A create whose id is already in the collection fails
  with that error and leaves the collection as it was.
\<close>

theorem C2_generate_id_duplicate:
  "(generate_id m s = Inl (TagIDExistsError s) \<longleftrightarrow> has_id m s)
   \<and> (generate_id m s = Inl e \<longrightarrow> e = TagIDExistsError s)
   \<and> (\<not> has_id m s \<longrightarrow> generate_id m s = Inr s)
   \<and> (process_create_data E uuid4 d = Inr v \<and> get_suggested_id v = Inr i \<and> contains (data c) i
        \<longrightarrow> async_create_item E uuid4 c d = (Inl (TagIDExistsError i), c))"
  by (auto simp: generate_id_def async_create_item_def has_id_def contains_def)

theorem C2_generate_id_duplicate_witness:
  "has_id \<lparr>registry = [''T'']\<rparr> ''T''
   \<and> generate_id \<lparr>registry = [''T'']\<rparr> ''T'' = Inl (TagIDExistsError ''T'')
   \<and> \<not> has_id \<lparr>registry = [''T'']\<rparr> ''U''
   \<and> generate_id \<lparr>registry = [''T'']\<rparr> ''U'' = Inr ''U''
   \<and> process_create_data spec_env example_uuid [(TAG_ID, PStr ''T'')] = Inr [(TAG_ID, PStr ''T'')]
   \<and> get_suggested_id [(TAG_ID, PStr ''T'' :: datetime pyval)] = Inr ''T''
   \<and> contains (data front_door_collection) ''T''
   \<and> async_create_item spec_env example_uuid front_door_collection [(TAG_ID, PStr ''T'')]
       = (Inl (TagIDExistsError ''T''), front_door_collection)"
proof -
  have h1: "has_id \<lparr>registry = [''T'']\<rparr> ''T''" and h2: "\<not> has_id \<lparr>registry = [''T'']\<rparr> ''U''"
    by (simp_all add: has_id_def)
  have h3: "process_create_data spec_env example_uuid [(TAG_ID, PStr ''T'')]
              = Inr [(TAG_ID, PStr ''T'')]"
    by (simp add: process_create_data_def vol_Schema_def validate_entry_def CREATE_FIELDS_def
        string_field_def spec_env_def cv_string_spec_def contains_def dict_keys_def key_defs)
  have h4: "get_suggested_id [(TAG_ID, PStr ''T'' :: datetime pyval)] = Inr ''T''"
    by (simp add: get_suggested_id_def)
  have h5: "contains (data front_door_collection) ''T''"
    by (simp add: front_door_collection_def contains_def dict_keys_def)
  from h1 h2 h3 h4 h5
    C2_generate_id_duplicate [of "\<lparr>registry = [''T'']\<rparr>" "''T''" "TagIDExistsError ''T''"
      spec_env example_uuid "[(TAG_ID, PStr ''T'')]" "[(TAG_ID, PStr ''T'')]" "''T''"
      front_door_collection]
    C2_generate_id_duplicate [of "\<lparr>registry = [''T'']\<rparr>" "''U''" "TagIDExistsError ''U''"
      spec_env example_uuid "[(TAG_ID, PStr ''T'')]" "[(TAG_ID, PStr ''T'')]" "''T''"
      front_door_collection]
  show ?thesis by simp
qed

text \<open>
  C3, as stated, fails: a field named in the patch does not always take the patch's value.
  Updating the record of the front door with the patch \<open>{last_scanned: t}\<close> gives a record
  whose \<open>last_scanned\<close> is the ISO string of \<open>t\<close>, not the timestamp \<open>t\<close> of the patch, so
  the result is not the patch merged over the record.
\<close>

theorem C3_counterexample:
  "update_data spec_env front_door [(LAST_SCANNED, PDatetime scan_time)]
     = Inr (front_door @ [(LAST_SCANNED, PStr (isoformat_utc scan_time))])
   \<and> map_of (front_door @ [(LAST_SCANNED, PStr (isoformat_utc scan_time))]) LAST_SCANNED
       \<noteq> map_of [(LAST_SCANNED, PDatetime scan_time)] LAST_SCANNED
   \<and> update_data spec_env front_door [(LAST_SCANNED, PDatetime scan_time)]
       \<noteq> Inr (dict_merge front_door [(LAST_SCANNED, PDatetime scan_time)])"
  by (simp add: update_data_def vol_Schema_def validate_entry_def UPDATE_FIELDS_def
      datetime_field_def spec_env_def cv_datetime_spec_def contains_def dict_keys_def
      dict_merge_def front_door_def key_defs)

text \<open>
  C3, amended. For every existing record and every patch that the update schema accepts,
  \<open>_update_data\<close> returns a record in which every field named in the patch other than
  \<open>last_scanned\<close> has the value that the update schema returns for the patch's value,
  which is the patch's own value when that is a string and the environment passes typed
  values; \<open>last_scanned\<close>, when named, has the ISO string of the patch's validated
  timestamp; and every field not named in the patch keeps its previous value.
\<close>

theorem C3_update_merges_validated_patch:
  assumes "vol_Schema (UPDATE_FIELDS E) patch = Inr p"
  shows "\<exists>r. update_data E item patch = Inr r
       \<and> (\<forall>k v. map_of patch k = Some v \<and> k \<noteq> LAST_SCANNED \<longrightarrow>
            (\<exists>f w. map_of (UPDATE_FIELDS E) k = Some f \<and> f v = Some w \<and> map_of r k = Some w))
       \<and> (\<forall>k s. passes_typed_values E \<and> map_of patch k = Some (PStr s) \<and> k \<noteq> LAST_SCANNED \<longrightarrow>
            map_of r k = Some (PStr s))
       \<and> (\<forall>v. map_of patch LAST_SCANNED = Some v \<longrightarrow>
            (\<exists>t. cv_datetime E v = Some t \<and> map_of r LAST_SCANNED = Some (PStr (isoformat E t))))
       \<and> (\<forall>k. map_of patch k = None \<longrightarrow> map_of r k = map_of item k)"
proof -
  from update_data_total[OF assms] obtain r where r: "update_data E item patch = Inr r" by blast
  have 1: "\<exists>f w. map_of (UPDATE_FIELDS E) k = Some f \<and> f v = Some w \<and> map_of r k = Some w"
    if "map_of patch k = Some v \<and> k \<noteq> LAST_SCANNED" for k v
    using that update_data_named[OF r] by blast
  have 2: "map_of r k = Some (PStr s)"
    if h: "passes_typed_values E \<and> map_of patch k = Some (PStr s) \<and> k \<noteq> LAST_SCANNED" for k s
  proof -
    from h update_data_named[OF r, of k "PStr s"] obtain f w where
      f: "map_of (UPDATE_FIELDS E) k = Some f" "f (PStr s) = Some w" "map_of r k = Some w" by blast
    from typed_string_passes[OF _ UPDATE_FIELDS_sub[OF f(1)] _ f(2)] h have "w = PStr s" by blast
    with f(3) show ?thesis by simp
  qed
  have 3: "\<exists>t. cv_datetime E v = Some t \<and> map_of r LAST_SCANNED = Some (PStr (isoformat E t))"
    if "map_of patch LAST_SCANNED = Some v" for v
    using that by (rule update_data_last_scanned[OF r])
  have 4: "map_of r k = map_of item k" if "map_of patch k = None" for k
    using that by (rule update_data_unnamed[OF r])
  from r 1 2 3 4 show ?thesis by blast
qed

theorem C3_update_merges_validated_patch_witness:
  "vol_Schema (UPDATE_FIELDS spec_env)
       [(CONF_NAME, PStr ''Back Door''), (LAST_SCANNED, PDatetime scan_time)]
     = Inr [(CONF_NAME, PStr ''Back Door''), (LAST_SCANNED, PDatetime scan_time)]
   \<and> passes_typed_values spec_env
   \<and> update_data spec_env front_door
       [(CONF_NAME, PStr ''Back Door''), (LAST_SCANNED, PDatetime scan_time)]
     = Inr [(TAG_ID, PStr ''T''), (CONF_NAME, PStr ''Back Door''),
            (''description'', PStr ''NFC sticker''),
            (LAST_SCANNED, PStr (isoformat_utc scan_time))]
   \<and> map_of [(TAG_ID, PStr ''T''), (CONF_NAME, PStr ''Back Door''),
            (''description'', PStr ''NFC sticker''),
            (LAST_SCANNED, PStr (isoformat_utc scan_time))] ''description''
       = map_of front_door ''description''"
proof -
  let ?P = "[(CONF_NAME, PStr ''Back Door''), (LAST_SCANNED, PDatetime scan_time)] :: datetime dict"
  let ?R = "[(TAG_ID, PStr ''T''), (CONF_NAME, PStr ''Back Door''),
            (''description'', PStr ''NFC sticker''),
            (LAST_SCANNED, PStr (isoformat_utc scan_time))] :: datetime dict"
  have v: "vol_Schema (UPDATE_FIELDS spec_env) ?P = Inr ?P"
    by (simp add: eval_defs)
  have u: "update_data spec_env front_door ?P = Inr ?R"
    by (simp add: eval_defs front_door_def)
  have n: "map_of ?P ''description'' = None"
    by (simp add: key_defs)
  from C3_update_merges_validated_patch [OF v, of front_door] obtain r where
    r: "update_data spec_env front_door ?P = Inr r"
    and k: "\<forall>k. map_of ?P k = None \<longrightarrow> map_of r k = map_of front_door k"
    by blast
  from r u have "r = ?R" by simp
  with k n have "map_of ?R ''description'' = map_of front_door ''description''" by blast
  with v u passes_typed_values_spec_env show ?thesis by blast
qed

text \<open>
  C4. In every call of the scan handler in a set-up system (the tag component is among the
  components and setup has stored the collection), whatever the collection methods do, the
  handler appends to the trace exactly the "tag scanned" event and then the one call on the
  collection, an update for a known tag id and a create for an unknown one. The event
  precedes the call, and when the call fails, its error is the error of the handler and
  the event is in the trace all the same.
\<close>

theorem C4_event_fired_before_persistence:
  assumes "DOMAIN \<in> set (components hass)" and "tag_data hass = Some c"
  shows "trace (snd (async_scan_tag api now hass tag_id device_id ctx))
           = trace hass
             @ [EventFired (scan_event tag_id (tag_name_of c tag_id) device_id ctx),
                if contains (data c) tag_id
                then UpdateItemCalled tag_id
                       [(LAST_SCANNED, PDatetime now), (DEVICE_ID, opt_str device_id)]
                else CreateItemCalled
                       [(TAG_ID, PStr tag_id), (LAST_SCANNED, PDatetime now),
                        (DEVICE_ID, opt_str device_id)]]
       \<and> (fst (if contains (data c) tag_id
                then update_item api c tag_id
                       [(LAST_SCANNED, PDatetime now), (DEVICE_ID, opt_str device_id)]
                else create_item api c
                       [(TAG_ID, PStr tag_id), (LAST_SCANNED, PDatetime now),
                        (DEVICE_ID, opt_str device_id)]) = Inl e
            \<longrightarrow> fst (async_scan_tag api now hass tag_id device_id ctx) = Inl e
              \<and> EventFired (scan_event tag_id (tag_name_of c tag_id) device_id ctx)
                  \<in> set (trace (snd (async_scan_tag api now hass tag_id device_id ctx))))"
proof (cases "map_of (data c) tag_id")
  case None
  then have k: "\<not> contains (data c) tag_id" by (simp add: contains_iff)
  from None have n: "tag_name_of c tag_id = PNone" by (simp add: tag_name_of_def)
  show ?thesis using k n by (simp add: scan_unknown[OF assms None])
next
  case (Some item)
  then have k: "contains (data c) tag_id" by (simp add: contains_iff)
  from Some have n: "tag_name_of c tag_id = dict_get item CONF_NAME" by (simp add: tag_name_of_def)
  show ?thesis using k n by (simp add: scan_known[OF assms Some])
qed

theorem C4_event_fired_before_persistence_witness:
  "DOMAIN \<in> set (components (set_up front_door_collection))
   \<and> tag_data (set_up front_door_collection) = Some front_door_collection
   \<and> fst (async_scan_tag (tag_storage_collection failing_store_env example_uuid) scan_time
            (set_up front_door_collection) ''T'' (Some ''scanner'') None) = Inl StorageError
   \<and> trace (snd (async_scan_tag (tag_storage_collection failing_store_env example_uuid) scan_time
            (set_up front_door_collection) ''T'' (Some ''scanner'') None))
      = [EventFired (scan_event ''T'' (PStr ''Front Door'') (Some ''scanner'') None),
         UpdateItemCalled ''T''
           [(LAST_SCANNED, PDatetime scan_time), (DEVICE_ID, PStr ''scanner'')]]"
proof -
  have h1: "DOMAIN \<in> set (components (set_up front_door_collection))"
    and h2: "tag_data (set_up front_door_collection) = Some front_door_collection"
    by (simp_all add: set_up_def)
  have k: "contains (data front_door_collection) ''T''"
    by (simp add: front_door_collection_def contains_def dict_keys_def)
  have n: "tag_name_of front_door_collection ''T'' = PStr ''Front Door''"
    by (simp add: tag_name_of_def front_door_collection_def front_door_def dict_get_def key_defs)
  have u: "update_data failing_store_env front_door
             [(LAST_SCANNED, PDatetime scan_time), (DEVICE_ID, PStr ''scanner'')]
           = Inr (front_door @ [(LAST_SCANNED, PStr (isoformat_utc scan_time)),
                                (DEVICE_ID, PStr ''scanner'')])"
    by (simp add: update_data_def vol_Schema_def validate_entry_def UPDATE_FIELDS_def
        datetime_field_def string_field_def failing_store_env_def spec_env_def
        cv_datetime_spec_def cv_string_spec_def contains_def dict_keys_def dict_merge_def
        front_door_def key_defs)
  have f: "fst (update_item (tag_storage_collection failing_store_env example_uuid)
             front_door_collection ''T''
             [(LAST_SCANNED, PDatetime scan_time), (DEVICE_ID, opt_str (Some ''scanner''))])
           = Inl StorageError"
    using u by (simp add: tag_storage_collection_def async_update_item_def
        front_door_collection_def opt_str_def failing_store_env_def spec_env_def)
  from C4_event_fired_before_persistence [OF h1 h2,
      of "tag_storage_collection failing_store_env example_uuid" scan_time "''T''"
         "Some ''scanner''" None StorageError] k n f h1 h2
  show ?thesis by (simp add: opt_str_def set_up_def)
qed




text \<open>
  C6, as stated, fails for the empty tag id. A scan of \<open>""\<close> on an empty collection fires
  the event and calls the create with the id \<open>""\<close>, but \<open>_process_create_data\<close> replaces
  the empty id by the generated UUID: the record is stored under the UUID and no record
  has the scanned id.
\<close>

theorem C6_counterexample:
  "map_of (data empty_collection) '''' = None
   \<and> process_create_data spec_env example_uuid
        [(TAG_ID, PStr ''''), (LAST_SCANNED, PDatetime scan_time), (DEVICE_ID, PStr ''scanner'')]
      = Inr [(TAG_ID, PStr example_uuid), (LAST_SCANNED, PStr (isoformat_utc scan_time)),
             (DEVICE_ID, PStr ''scanner'')]
   \<and> async_scan_tag (tag_storage_collection spec_env example_uuid) scan_time
        (set_up empty_collection) '''' (Some ''scanner'') None
     = (Inr (),
        \<lparr>components = [DOMAIN],
         tag_data = Some
           \<lparr>data = [(example_uuid,
                     [(TAG_ID, PStr example_uuid),
                      (LAST_SCANNED, PStr (isoformat_utc scan_time)),
                      (DEVICE_ID, PStr ''scanner'')])],
            stored = [(example_uuid,
                     [(TAG_ID, PStr example_uuid),
                      (LAST_SCANNED, PStr (isoformat_utc scan_time)),
                      (DEVICE_ID, PStr ''scanner'')])],
            notified = [Added example_uuid
                     [(TAG_ID, PStr example_uuid),
                      (LAST_SCANNED, PStr (isoformat_utc scan_time)),
                      (DEVICE_ID, PStr ''scanner'')]]\<rparr>,
         trace = [EventFired (scan_event '''' PNone (Some ''scanner'') None),
                  CreateItemCalled
                    [(TAG_ID, PStr ''''), (LAST_SCANNED, PDatetime scan_time),
                     (DEVICE_ID, PStr ''scanner'')]]\<rparr>)
   \<and> example_uuid \<noteq> ''''"
proof -
  have p: "process_create_data spec_env example_uuid
             [(TAG_ID, PStr ''''), (LAST_SCANNED, PDatetime scan_time),
              (DEVICE_ID, PStr ''scanner'')]
           = Inr [(TAG_ID, PStr example_uuid), (LAST_SCANNED, PStr (isoformat_utc scan_time)),
                  (DEVICE_ID, PStr ''scanner'')]"
    by (simp add: eval_defs)
  have c: "async_create_item spec_env example_uuid empty_collection
             [(TAG_ID, PStr ''''), (LAST_SCANNED, PDatetime scan_time),
              (DEVICE_ID, PStr ''scanner'')]
           = (Inr [(TAG_ID, PStr example_uuid), (LAST_SCANNED, PStr (isoformat_utc scan_time)),
                  (DEVICE_ID, PStr ''scanner'')],
              \<lparr>data = [(example_uuid,
                     [(TAG_ID, PStr example_uuid),
                      (LAST_SCANNED, PStr (isoformat_utc scan_time)),
                      (DEVICE_ID, PStr ''scanner'')])],
            stored = [(example_uuid,
                     [(TAG_ID, PStr example_uuid),
                      (LAST_SCANNED, PStr (isoformat_utc scan_time)),
                      (DEVICE_ID, PStr ''scanner'')])],
            notified = [Added example_uuid
                     [(TAG_ID, PStr example_uuid),
                      (LAST_SCANNED, PStr (isoformat_utc scan_time)),
                      (DEVICE_ID, PStr ''scanner'')]]\<rparr>)"
    using async_create_item_fresh[OF p, of example_uuid empty_collection]
    by (simp add: empty_collection_def store_save_spec_env)
  have u: "example_uuid \<noteq> ''''" by (simp add: example_uuid_def)
  have n: "map_of (data empty_collection) '''' = None" by (simp add: empty_collection_def)
  have i: "DOMAIN \<in> set (components (set_up empty_collection))"
     "tag_data (set_up empty_collection) = Some empty_collection"
    by (simp_all add: set_up_def)
  from scan_unknown[OF i n, of "tag_storage_collection spec_env example_uuid" scan_time
      "Some ''scanner''" None] c u n p
  show ?thesis by (simp add: tag_storage_collection_def opt_str_def set_up_def)
qed

text \<open>
  C6, amended. For every scan of a tag id that the collection does not have, whatever the
  collection methods do, the handler fires exactly one event, with that tag id, the name
  \<open>None\<close> and the scanning device, and then calls the create with
  \<open>{tag_id, last_scanned: now, device_id}\<close>. When the tag id is not empty and the
  environment passes typed values, \<open>_process_create_data\<close> turns that input, for a device
  that is a string, into the record with the scanned id, the ISO string of the call time
  as \<open>last_scanned\<close> and the scanning device as \<open>device_id\<close>; when, moreover, the storage
  accepts the write, the handler returns normally and the persisted collection gains that
  record under the scanned tag id.
\<close>

theorem C6_scan_of_unknown_tag:
  assumes "DOMAIN \<in> set (components hass)" and "tag_data hass = Some c"
    and "map_of (data c) tag_id = None"
  shows "trace (snd (async_scan_tag api now hass tag_id device_id ctx))
           = trace hass
             @ [EventFired (scan_event tag_id PNone device_id ctx),
                CreateItemCalled
                  [(TAG_ID, PStr tag_id), (LAST_SCANNED, PDatetime now),
                   (DEVICE_ID, opt_str device_id)]]
       \<and> (tag_id \<noteq> '''' \<and> passes_typed_values E \<longrightarrow>
            process_create_data E uuid4
              [(TAG_ID, PStr tag_id), (LAST_SCANNED, PDatetime now), (DEVICE_ID, PStr dev)]
            = Inr [(TAG_ID, PStr tag_id), (LAST_SCANNED, PStr (isoformat E now)),
                   (DEVICE_ID, PStr dev)])
       \<and> (tag_id \<noteq> '''' \<and> device_id = Some dev \<and> passes_typed_values E
            \<and> rec = [(TAG_ID, PStr tag_id), (LAST_SCANNED, PStr (isoformat E now)),
                     (DEVICE_ID, PStr dev)]
            \<and> store_save E (data c @ [(tag_id, rec)])
          \<longrightarrow> async_scan_tag (tag_storage_collection E uuid4) now hass tag_id device_id ctx
              = (Inr (),
                 hass\<lparr>trace := trace hass
                         @ [EventFired (scan_event tag_id PNone device_id ctx),
                            CreateItemCalled
                              [(TAG_ID, PStr tag_id), (LAST_SCANNED, PDatetime now),
                               (DEVICE_ID, opt_str device_id)]],
                      tag_data := Some (c\<lparr>data := data c @ [(tag_id, rec)],
                                          stored := data c @ [(tag_id, rec)],
                                          notified := notified c @ [Added tag_id rec]\<rparr>)\<rparr>))"
proof (intro conjI)
  show "trace (snd (async_scan_tag api now hass tag_id device_id ctx))
           = trace hass
             @ [EventFired (scan_event tag_id PNone device_id ctx),
                CreateItemCalled
                  [(TAG_ID, PStr tag_id), (LAST_SCANNED, PDatetime now),
                   (DEVICE_ID, opt_str device_id)]]"
    by (simp add: scan_unknown[OF assms])
  show "tag_id \<noteq> '''' \<and> passes_typed_values E \<longrightarrow>
            process_create_data E uuid4
              [(TAG_ID, PStr tag_id), (LAST_SCANNED, PDatetime now), (DEVICE_ID, PStr dev)]
            = Inr [(TAG_ID, PStr tag_id), (LAST_SCANNED, PStr (isoformat E now)),
                   (DEVICE_ID, PStr dev)]"
    using create_scanned[of E tag_id uuid4 now dev] by blast
  show "tag_id \<noteq> '''' \<and> device_id = Some dev \<and> passes_typed_values E
            \<and> rec = [(TAG_ID, PStr tag_id), (LAST_SCANNED, PStr (isoformat E now)),
                     (DEVICE_ID, PStr dev)]
            \<and> store_save E (data c @ [(tag_id, rec)])
          \<longrightarrow> async_scan_tag (tag_storage_collection E uuid4) now hass tag_id device_id ctx
              = (Inr (),
                 hass\<lparr>trace := trace hass
                         @ [EventFired (scan_event tag_id PNone device_id ctx),
                            CreateItemCalled
                              [(TAG_ID, PStr tag_id), (LAST_SCANNED, PDatetime now),
                               (DEVICE_ID, opt_str device_id)]],
                      tag_data := Some (c\<lparr>data := data c @ [(tag_id, rec)],
                                          stored := data c @ [(tag_id, rec)],
                                          notified := notified c @ [Added tag_id rec]\<rparr>)\<rparr>)"
    using scan_unknown_stored[OF assms, of E uuid4 now device_id ctx dev rec] by blast
qed

theorem C6_scan_of_unknown_tag_witness:
  "DOMAIN \<in> set (components (set_up front_door_collection))
   \<and> tag_data (set_up front_door_collection) = Some front_door_collection
   \<and> map_of (data front_door_collection) ''U'' = None
   \<and> ''U'' \<noteq> '''' \<and> passes_typed_values spec_env
   \<and> store_save spec_env (data front_door_collection
        @ [(''U'', [(TAG_ID, PStr ''U''), (LAST_SCANNED, PStr (isoformat spec_env scan_time)),
                   (DEVICE_ID, PStr ''scanner'')])])
   \<and> process_create_data spec_env example_uuid
        [(TAG_ID, PStr ''U''), (LAST_SCANNED, PDatetime scan_time), (DEVICE_ID, PStr ''scanner'')]
      = Inr [(TAG_ID, PStr ''U''), (LAST_SCANNED, PStr (isoformat spec_env scan_time)),
             (DEVICE_ID, PStr ''scanner'')]
   \<and> async_scan_tag (tag_storage_collection spec_env example_uuid) scan_time
        (set_up front_door_collection) ''U'' (Some ''scanner'') None
      = (Inr (),
         \<lparr>components = [DOMAIN],
          tag_data = Some
            \<lparr>data = [(''T'', front_door),
                     (''U'', [(TAG_ID, PStr ''U''), (LAST_SCANNED, PStr (isoformat_utc scan_time)),
                              (DEVICE_ID, PStr ''scanner'')])],
             stored = [(''T'', front_door),
                     (''U'', [(TAG_ID, PStr ''U''), (LAST_SCANNED, PStr (isoformat_utc scan_time)),
                              (DEVICE_ID, PStr ''scanner'')])],
             notified = [Added ''U''
                       [(TAG_ID, PStr ''U''), (LAST_SCANNED, PStr (isoformat_utc scan_time)),
                        (DEVICE_ID, PStr ''scanner'')]]\<rparr>,
          trace = [EventFired (scan_event ''U'' PNone (Some ''scanner'') None),
                   CreateItemCalled
                     [(TAG_ID, PStr ''U''), (LAST_SCANNED, PDatetime scan_time),
                      (DEVICE_ID, PStr ''scanner'')]]\<rparr>)"
proof -
  let ?rec = "[(TAG_ID, PStr ''U''), (LAST_SCANNED, PStr (isoformat spec_env scan_time)),
               (DEVICE_ID, PStr ''scanner'')] :: datetime dict"
  have h1: "DOMAIN \<in> set (components (set_up front_door_collection))"
    and h2: "tag_data (set_up front_door_collection) = Some front_door_collection"
    by (simp_all add: set_up_def)
  have h3: "map_of (data front_door_collection) ''U'' = None"
    by (simp add: front_door_collection_def)
  have h4: "''U'' \<noteq> ''''" by simp
  have h5: "store_save spec_env (data front_door_collection @ [(''U'', ?rec)])"
    by (rule store_save_spec_env)
  note T = C6_scan_of_unknown_tag [OF h1 h2 h3, where E = spec_env and ?uuid4.0 = example_uuid
      and now = scan_time and device_id = "Some ''scanner''" and ctx = None
      and dev = "''scanner''" and rec = ?rec]
  from T [THEN conjunct2, THEN conjunct1, rule_format,
      OF conjI [OF h4 passes_typed_values_spec_env]]
  have p: "process_create_data spec_env example_uuid
        [(TAG_ID, PStr ''U''), (LAST_SCANNED, PDatetime scan_time), (DEVICE_ID, PStr ''scanner'')]
      = Inr ?rec" .
  from T [THEN conjunct2, THEN conjunct2] h4 h5 passes_typed_values_spec_env
  have "async_scan_tag (tag_storage_collection spec_env example_uuid) scan_time
        (set_up front_door_collection) ''U'' (Some ''scanner'') None
      = (Inr (),
         \<lparr>components = [DOMAIN],
          tag_data = Some
            \<lparr>data = [(''T'', front_door),
                     (''U'', [(TAG_ID, PStr ''U''), (LAST_SCANNED, PStr (isoformat_utc scan_time)),
                              (DEVICE_ID, PStr ''scanner'')])],
             stored = [(''T'', front_door),
                     (''U'', [(TAG_ID, PStr ''U''), (LAST_SCANNED, PStr (isoformat_utc scan_time)),
                              (DEVICE_ID, PStr ''scanner'')])],
             notified = [Added ''U''
                       [(TAG_ID, PStr ''U''), (LAST_SCANNED, PStr (isoformat_utc scan_time)),
                        (DEVICE_ID, PStr ''scanner'')]]\<rparr>,
          trace = [EventFired (scan_event ''U'' PNone (Some ''scanner'') None),
                   CreateItemCalled
                     [(TAG_ID, PStr ''U''), (LAST_SCANNED, PDatetime scan_time),
                      (DEVICE_ID, PStr ''scanner'')]]\<rparr>)"
    by (simp add: set_up_def front_door_collection_def opt_str_def spec_env_def)
  with h1 h2 h3 h4 h5 p passes_typed_values_spec_env show ?thesis by blast
qed

text \<open>
  C7. A call of the scan handler while the tag component is not among the components that
  are set up fails with the not-initialised error; it fires no event and touches no
  collection: the state it leaves is the state it found, so only that call is lost.
\<close>

theorem C7_scan_before_setup:
  "DOMAIN \<notin> set (components hass) \<Longrightarrow>
   async_scan_tag api now hass tag_id device_id ctx
     = (Inl (HomeAssistantError ''tag component has not been set up.''), hass)"
  by (simp add: async_scan_tag_def)

theorem C7_scan_before_setup_witness:
  "DOMAIN \<notin> set (components not_set_up)
   \<and> async_scan_tag (tag_storage_collection spec_env example_uuid) scan_time not_set_up
        ''T'' (Some ''scanner'') None
      = (Inl (HomeAssistantError ''tag component has not been set up.''), not_set_up)"
proof -
  have h: "DOMAIN \<notin> set (components not_set_up)" by (simp add: not_set_up_def)
  from h C7_scan_before_setup [OF h] show ?thesis by simp
qed

text \<open>
  C8. For every create input and every update patch that contains \<open>last_scanned\<close>, the
  record that \<open>_process_create_data\<close> or \<open>_update_data\<close> returns holds, as \<open>last_scanned\<close>,
  the ISO string of the validated timestamp. No field of a created record is a timestamp,
  and no field named in a patch is a timestamp in the updated record. A record is returned
  for every create input with an id, and for every patch, that the schema accepts.
\<close>

theorem C8_last_scanned_stored_as_iso_string:
  "(process_create_data E uuid4 d = Inr r \<and> map_of d LAST_SCANNED = Some v \<longrightarrow>
      (\<exists>t. cv_datetime E v = Some t \<and> map_of r LAST_SCANNED = Some (PStr (isoformat E t))))
   \<and> (process_create_data E uuid4 d = Inr r \<longrightarrow> (\<forall>k t. map_of r k \<noteq> Some (PDatetime t)))
   \<and> (vol_Schema (CREATE_FIELDS E) d = Inr p \<and> contains d TAG_ID \<longrightarrow>
      (\<exists>r. process_create_data E uuid4 d = Inr r))
   \<and> (update_data E item patch = Inr r' \<and> map_of patch LAST_SCANNED = Some v' \<longrightarrow>
      (\<exists>t. cv_datetime E v' = Some t \<and> map_of r' LAST_SCANNED = Some (PStr (isoformat E t))))
   \<and> (update_data E item patch = Inr r' \<and> contains patch k \<longrightarrow>
      (\<forall>t. map_of r' k \<noteq> Some (PDatetime t)))
   \<and> (vol_Schema (UPDATE_FIELDS E) patch = Inr p' \<longrightarrow> (\<exists>r. update_data E item patch = Inr r))"
proof (intro conjI impI)
  assume h: "process_create_data E uuid4 d = Inr r \<and> map_of d LAST_SCANNED = Some v"
  then have c: "process_create_data E uuid4 d = Inr r" and l: "map_of d LAST_SCANNED = Some v"
    by simp_all
  from process_create_data_last_scanned[OF c] l
  show "\<exists>t. cv_datetime E v = Some t \<and> map_of r LAST_SCANNED = Some (PStr (isoformat E t))"
    by (cases "cv_datetime E v") auto
next
  assume c: "process_create_data E uuid4 d = Inr r"
  show "\<forall>k t. map_of r k \<noteq> Some (PDatetime t)"
  proof (intro allI notI)
    fix k t assume a: "map_of r k = Some (PDatetime t)"
    show False
    proof (cases "k = TAG_ID \<or> k = LAST_SCANNED")
      case True
      then show False
      proof
        assume "k = TAG_ID"
        with process_create_data_id[OF c] a show False by auto
      next
        assume "k = LAST_SCANNED"
        with process_create_data_last_scanned(1)[OF c] a show False
          by (auto split: option.splits)
      qed
    next
      case False
      with process_create_data_other[OF c, of k] a obtain x f where
        "map_of (CREATE_FIELDS E) k = Some f" "f x = Some (PDatetime t)"
        by (auto split: option.splits)
      with string_valued_fields[of E k f x "PDatetime t"] False show False by auto
    qed
  qed
next
  assume "vol_Schema (CREATE_FIELDS E) d = Inr p \<and> contains d TAG_ID"
  then show "\<exists>r. process_create_data E uuid4 d = Inr r"
    using process_create_data_total by blast
next
  assume "update_data E item patch = Inr r' \<and> map_of patch LAST_SCANNED = Some v'"
  then show "\<exists>t. cv_datetime E v' = Some t \<and> map_of r' LAST_SCANNED = Some (PStr (isoformat E t))"
    using update_data_last_scanned by blast
next
  assume h: "update_data E item patch = Inr r' \<and> contains patch k"
  then have u: "update_data E item patch = Inr r'" by simp
  from h obtain x where x: "map_of patch k = Some x" by (auto simp: contains_iff)
  show "\<forall>t. map_of r' k \<noteq> Some (PDatetime t)"
  proof (intro allI notI)
    fix t assume a: "map_of r' k = Some (PDatetime t)"
    show False
    proof (cases "k = LAST_SCANNED")
      case True
      with update_data_last_scanned[OF u] x a show False by auto
    next
      case False
      with update_data_named[OF u x] a obtain f where
        "map_of (UPDATE_FIELDS E) k = Some f" "f x = Some (PDatetime t)" by auto
      with string_valued_fields[OF UPDATE_FIELDS_sub, of E k f x "PDatetime t"] False
      show False by auto
    qed
  qed
next
  assume "vol_Schema (UPDATE_FIELDS E) patch = Inr p'"
  then show "\<exists>r. update_data E item patch = Inr r" by (rule update_data_total)
qed

theorem C8_last_scanned_stored_as_iso_string_witness:
  "process_create_data spec_env example_uuid
       [(TAG_ID, PStr ''T''), (LAST_SCANNED, PDatetime scan_time)]
     = Inr [(TAG_ID, PStr ''T''), (LAST_SCANNED, PStr (isoformat_utc scan_time))]
   \<and> map_of [(TAG_ID, PStr ''T''), (LAST_SCANNED, PDatetime scan_time)] LAST_SCANNED
       = Some (PDatetime scan_time)
   \<and> map_of [(TAG_ID, PStr ''T''), (LAST_SCANNED, PStr (isoformat_utc scan_time))] LAST_SCANNED
       = Some (PStr (isoformat spec_env scan_time) :: datetime pyval)
   \<and> update_data spec_env front_door [(LAST_SCANNED, PDatetime scan_time)]
     = Inr (front_door @ [(LAST_SCANNED, PStr (isoformat_utc scan_time))])
   \<and> contains [(LAST_SCANNED, PDatetime scan_time)] LAST_SCANNED
   \<and> map_of (front_door @ [(LAST_SCANNED, PStr (isoformat_utc scan_time))]) LAST_SCANNED
       = Some (PStr (isoformat spec_env scan_time))"
proof -
  let ?D = "[(TAG_ID, PStr ''T''), (LAST_SCANNED, PDatetime scan_time)] :: datetime dict"
  let ?R = "[(TAG_ID, PStr ''T''), (LAST_SCANNED, PStr (isoformat_utc scan_time))] :: datetime dict"
  let ?P = "[(LAST_SCANNED, PDatetime scan_time)] :: datetime dict"
  let ?R' = "front_door @ [(LAST_SCANNED, PStr (isoformat_utc scan_time))]"
  have c: "process_create_data spec_env example_uuid ?D = Inr ?R"
    by (simp add: eval_defs)
  have l: "map_of ?D LAST_SCANNED = Some (PDatetime scan_time)"
    by (simp add: key_defs)
  have u: "update_data spec_env front_door ?P = Inr ?R'"
    by (simp add: eval_defs front_door_def)
  have l': "map_of ?P LAST_SCANNED = Some (PDatetime scan_time)"
    by simp
  have k: "contains ?P LAST_SCANNED"
    by (simp add: contains_def dict_keys_def)
  have t: "cv_datetime spec_env (PDatetime scan_time) = Some scan_time"
    by (simp add: spec_env_def cv_datetime_spec_def)
  note T = C8_last_scanned_stored_as_iso_string [where E = spec_env and ?uuid4.0 = example_uuid
      and d = ?D and r = ?R and v = "PDatetime scan_time" and item = front_door
      and patch = ?P and r' = ?R' and v' = "PDatetime scan_time" and k = LAST_SCANNED]
  from T [THEN conjunct1, rule_format, OF conjI [OF c l]]
    T [THEN conjunct2, THEN conjunct2, THEN conjunct2, THEN conjunct1, rule_format,
       OF conjI [OF u l']]
  have "(\<exists>t. cv_datetime spec_env (PDatetime scan_time) = Some t
          \<and> map_of ?R LAST_SCANNED = Some (PStr (isoformat spec_env t)))
      \<and> (\<exists>t. cv_datetime spec_env (PDatetime scan_time) = Some t
          \<and> map_of ?R' LAST_SCANNED = Some (PStr (isoformat spec_env t)))"
    by (rule conjI)
  with t have
    "map_of ?R LAST_SCANNED = Some (PStr (isoformat spec_env scan_time))
     \<and> map_of ?R' LAST_SCANNED = Some (PStr (isoformat spec_env scan_time))"
    by (elim conjE exE) simp
  with c l u k show ?thesis by blast
qed

text \<open>
  C9. For every existing record and every patch that the update schema accepts,
  \<open>_update_data\<close> returns a record with the id of the existing record; every record that
  it returns has that id, and every other field that the update schema does not have,
  unchanged. A patch that names the id, or any field that the update schema does not have,
  is refused as invalid. The update schema is the create schema without the id.
\<close>

theorem C9_update_keeps_id:
  "(vol_Schema (UPDATE_FIELDS E) patch = Inr p \<longrightarrow>
      (\<exists>r. update_data E item patch = Inr r \<and> map_of r TAG_ID = map_of item TAG_ID))
   \<and> (update_data E item patch = Inr r \<longrightarrow> map_of r TAG_ID = map_of item TAG_ID)
   \<and> (contains patch TAG_ID \<longrightarrow> (\<exists>ks. update_data E item patch = Inl (Invalid ks)))
   \<and> (contains patch k \<and> \<not> contains (UPDATE_FIELDS E) k \<longrightarrow>
        (\<exists>ks. update_data E item patch = Inl (Invalid ks)))
   \<and> (update_data E item patch = Inr r \<and> \<not> contains (UPDATE_FIELDS E) k \<longrightarrow>
        map_of r k = map_of item k)
   \<and> UPDATE_FIELDS E = AList.delete TAG_ID (CREATE_FIELDS E)
   \<and> \<not> contains (UPDATE_FIELDS E) TAG_ID"
proof (intro conjI impI)
  have x: "map_of patch k' = None"
    if "update_data E item patch = Inr r'" "\<not> contains (UPDATE_FIELDS E) k'" for k' r'
  proof (rule ccontr)
    assume "map_of patch k' \<noteq> None"
    then have "contains patch k'" by (simp add: contains_iff)
    from update_data_extra_key[OF this, of E item] that show False by (auto simp: contains_iff)
  qed
  have t: "\<not> contains (UPDATE_FIELDS E) TAG_ID" by (simp add: contains_iff)
  show "\<not> contains (UPDATE_FIELDS E) TAG_ID" by (rule t)
  have i: "map_of r' TAG_ID = map_of item TAG_ID" if "update_data E item patch = Inr r'" for r'
    using update_data_unnamed[OF that x[OF that t]] .
  show "map_of r TAG_ID = map_of item TAG_ID" if "update_data E item patch = Inr r"
    using that by (rule i)
  show "\<exists>r. update_data E item patch = Inr r \<and> map_of r TAG_ID = map_of item TAG_ID"
    if "vol_Schema (UPDATE_FIELDS E) patch = Inr p"
    using update_data_total[OF that, of item] i by blast
  show "\<exists>ks. update_data E item patch = Inl (Invalid ks)" if "contains patch TAG_ID"
    using update_data_extra_key[OF that] by simp
  show "\<exists>ks. update_data E item patch = Inl (Invalid ks)"
    if "contains patch k \<and> \<not> contains (UPDATE_FIELDS E) k"
    using that update_data_extra_key[of patch k E item] by (auto simp: contains_iff)
  show "map_of r k = map_of item k"
    if "update_data E item patch = Inr r \<and> \<not> contains (UPDATE_FIELDS E) k"
  proof -
    from that have u: "update_data E item patch = Inr r"
      and n: "\<not> contains (UPDATE_FIELDS E) k" by simp_all
    from update_data_unnamed[OF u x[OF u n]] show ?thesis .
  qed
  show "UPDATE_FIELDS E = AList.delete TAG_ID (CREATE_FIELDS E)"
    by (simp add: CREATE_FIELDS_def UPDATE_FIELDS_def AList.delete_eq key_defs)
qed

theorem C9_update_keeps_id_witness:
  "vol_Schema (UPDATE_FIELDS spec_env) [(CONF_NAME, PStr ''Back Door'')]
     = Inr [(CONF_NAME, PStr ''Back Door'')]
   \<and> update_data spec_env front_door [(CONF_NAME, PStr ''Back Door'')]
     = Inr [(TAG_ID, PStr ''T''), (CONF_NAME, PStr ''Back Door''),
            (''description'', PStr ''NFC sticker'')]
   \<and> map_of [(TAG_ID, PStr ''T''), (CONF_NAME, PStr ''Back Door''),
            (''description'', PStr ''NFC sticker'')] TAG_ID = map_of front_door TAG_ID
   \<and> contains [(TAG_ID, PStr ''X'' :: datetime pyval)] TAG_ID
   \<and> \<not> contains (UPDATE_FIELDS spec_env) TAG_ID
   \<and> update_data spec_env front_door [(TAG_ID, PStr ''X'')] = Inl (Invalid [TAG_ID])"
proof -
  let ?P = "[(CONF_NAME, PStr ''Back Door'')] :: datetime dict"
  let ?R = "[(TAG_ID, PStr ''T''), (CONF_NAME, PStr ''Back Door''),
            (''description'', PStr ''NFC sticker'')] :: datetime dict"
  let ?X = "[(TAG_ID, PStr ''X'')] :: datetime dict"
  have v: "vol_Schema (UPDATE_FIELDS spec_env) ?P = Inr ?P"
    by (simp add: eval_defs)
  have u: "update_data spec_env front_door ?P = Inr ?R"
    by (simp add: eval_defs front_door_def)
  have k: "contains ?X TAG_ID"
    by (simp add: contains_def dict_keys_def)
  have e: "update_data spec_env front_door ?X = Inl (Invalid [TAG_ID])"
    by (simp add: eval_defs)
  note T = C9_update_keeps_id [where E = spec_env and item = front_door and patch = ?P
      and r = ?R and p = ?P and k = TAG_ID]
  from T [THEN conjunct2, THEN conjunct1, rule_format, OF u]
  have i: "map_of ?R TAG_ID = map_of front_door TAG_ID" .
  note X = C9_update_keeps_id [where E = spec_env and item = front_door and patch = ?X
      and k = TAG_ID]
  from X have n: "\<not> contains (UPDATE_FIELDS spec_env) TAG_ID" by blast
  from v u i k n e show ?thesis by blast
qed

text \<open>
  C10. For every create input whose id is the empty string, with a string validator that
  returns the empty string as it is, the record that \<open>_process_create_data\<close> returns has
  the generated UUID as its id, and a record is returned whenever the create schema accepts
  the input. With a non-empty UUID, no record that \<open>_process_create_data\<close> returns has an
  empty id.
\<close>

theorem C10_empty_id_replaced_by_uuid:
  "(map_of d TAG_ID = Some (PStr '''') \<and> cv_string E (PStr '''') = Some ''''
      \<and> process_create_data E uuid4 d = Inr r \<longrightarrow> map_of r TAG_ID = Some (PStr uuid4))
   \<and> (map_of d TAG_ID = Some (PStr '''') \<and> vol_Schema (CREATE_FIELDS E) d = Inr p \<longrightarrow>
        (\<exists>r. process_create_data E uuid4 d = Inr r))
   \<and> (uuid4 \<noteq> '''' \<and> process_create_data E uuid4 d = Inr r \<longrightarrow>
        (\<exists>s. map_of r TAG_ID = Some (PStr s) \<and> s \<noteq> ''''))"
proof (intro conjI impI)
  assume "map_of d TAG_ID = Some (PStr '''') \<and> cv_string E (PStr '''') = Some ''''
      \<and> process_create_data E uuid4 d = Inr r"
  then show "map_of r TAG_ID = Some (PStr uuid4)"
    using process_create_data_id[of E uuid4 d r] by auto
next
  assume h: "map_of d TAG_ID = Some (PStr '''') \<and> vol_Schema (CREATE_FIELDS E) d = Inr p"
  then have "contains d TAG_ID" by (simp add: contains_iff)
  with h show "\<exists>r. process_create_data E uuid4 d = Inr r"
    using process_create_data_total by blast
next
  assume "uuid4 \<noteq> '''' \<and> process_create_data E uuid4 d = Inr r"
  then show "\<exists>s. map_of r TAG_ID = Some (PStr s) \<and> s \<noteq> ''''"
    using process_create_data_id[of E uuid4 d r] by auto
qed

theorem C10_empty_id_replaced_by_uuid_witness:
  "map_of [(TAG_ID, PStr ''''), (CONF_NAME, PStr ''Front Door'' :: datetime pyval)] TAG_ID
     = Some (PStr '''')
   \<and> cv_string spec_env (PStr '''') = Some ''''
   \<and> example_uuid \<noteq> ''''
   \<and> vol_Schema (CREATE_FIELDS spec_env) [(TAG_ID, PStr ''''), (CONF_NAME, PStr ''Front Door'')]
      = Inr [(TAG_ID, PStr ''''), (CONF_NAME, PStr ''Front Door'')]
   \<and> process_create_data spec_env example_uuid
        [(TAG_ID, PStr ''''), (CONF_NAME, PStr ''Front Door'')]
      = Inr [(TAG_ID, PStr example_uuid), (CONF_NAME, PStr ''Front Door'')]
   \<and> map_of [(TAG_ID, PStr example_uuid), (CONF_NAME, PStr ''Front Door'' :: datetime pyval)]
        TAG_ID = Some (PStr example_uuid)"
proof -
  let ?D = "[(TAG_ID, PStr ''''), (CONF_NAME, PStr ''Front Door'')] :: datetime dict"
  let ?R = "[(TAG_ID, PStr example_uuid), (CONF_NAME, PStr ''Front Door'')] :: datetime dict"
  have h1: "map_of ?D TAG_ID = Some (PStr '''')" by simp
  have h2: "cv_string spec_env (PStr '''') = Some ''''"
    by (simp add: spec_env_def cv_string_spec_def)
  have h3: "example_uuid \<noteq> ''''" by (simp add: example_uuid_def)
  have h4: "process_create_data spec_env example_uuid ?D = Inr ?R"
    by (simp add: eval_defs)
  have h5: "vol_Schema (CREATE_FIELDS spec_env) ?D = Inr ?D"
    by (simp add: eval_defs)
  note T = C10_empty_id_replaced_by_uuid [where d = ?D and E = spec_env
      and ?uuid4.0 = example_uuid and r = ?R]
  from T [THEN conjunct1, rule_format, OF conjI [OF h1 conjI [OF h2 h4]]]
  have "map_of ?R TAG_ID = Some (PStr example_uuid)" .
  with h1 h2 h3 h4 h5 show ?thesis by blast
qed

end
